theory Spec2Isabelle
  imports Main "HOL-Library.Word"
begin

unbundle bit_operations_syntax

section \<open>Byte arrays\<close>

text \<open>
  A \<open>QByteArray\<close> is a list of bytes. The functions below are the members of
  \<open>QByteArray\<close> that the session code calls, with Qt's documented results.
\<close>

type_synonym bytes = string

text \<open>\<open>isspace\<close> in the C locale: tab, line feed, vertical tab, form feed, carriage
  return and space.\<close>

definition isspace :: "char \<Rightarrow> bool" where
  "isspace c = (of_char c \<in> {9, 10, 11, 12, 13, 32 :: nat})"

text \<open>\<open>QByteArray::trimmed()\<close>: whitespace removed from both ends.\<close>

definition trimmed :: "bytes \<Rightarrow> bytes" where
  "trimmed b = rev (dropWhile isspace (rev (dropWhile isspace b)))"

text \<open>\<open>QByteArray::indexOf(char)\<close>: the position of the first occurrence, or -1.\<close>

fun indexOf :: "char \<Rightarrow> bytes \<Rightarrow> int" where
  "indexOf c [] = - 1"
| "indexOf c (x # xs) =
     (if x = c then 0 else (let i = indexOf c xs in if i < 0 then - 1 else i + 1))"

text \<open>\<open>QByteArray::left(len)\<close>: the whole array when \<open>len\<close> is not smaller than its
  size, the empty array when \<open>len\<close> is negative, the first \<open>len\<close> bytes otherwise.\<close>

definition left :: "int \<Rightarrow> bytes \<Rightarrow> bytes" where
  "left len b =
     (if len \<ge> int (length b) then b else if len < 0 then [] else take (nat len) b)"

text \<open>\<open>QByteArray::remove(0, 1)\<close>: the first byte removed (nothing on an empty array).\<close>

definition remove_first_byte :: "bytes \<Rightarrow> bytes" where
  "remove_first_byte b = drop 1 b"

text \<open>\<open>QByteArray::number(n)\<close> for an unsigned \<open>n\<close>: its decimal digits.\<close>

definition digit_char :: "nat \<Rightarrow> char" where
  "digit_char d = ''0123456789'' ! d"

fun number :: "nat \<Rightarrow> bytes" where
  "number n = (if n < 10 then [digit_char n] else number (n div 10) @ [digit_char (n mod 10)])"

declare number.simps [simp del]

text \<open>\<open>QByteArray::rightJustified(width, fill)\<close> (no truncation): the array padded on
  the left up to \<open>width\<close>, unchanged when it is already that long.\<close>

definition rightJustified :: "nat \<Rightarrow> char \<Rightarrow> bytes \<Rightarrow> bytes" where
  "rightJustified width fill b = replicate (width - length b) fill @ b"

section \<open>Messages\<close>

text \<open>
  \<open>Message::Part\<close> has the two constructors the reader calls: one from a
  \<open>QByteArray\<close> (used for string tokens and for literals alike) and one from a
  \<open>QList<QByteArray>\<close>.
\<close>

datatype Part = String bytes | List "bytes list"

record Message =
  content :: "Part list"
  responseCode :: "Part list"

definition emptyMessage :: Message where
  "emptyMessage = \<lparr> content = [], responseCode = [] \<rparr>"

text \<open>Modelled from the spec: \<open>Message::Part::toString\<close> and \<open>Message::toString\<close>
  are declared in \<open>message_p.h\<close>, which is not among the sources. The spec reads the tag
  and the status code as the bytes of the first two parts, and renders a response as its
  parts in wire order separated by single spaces; a list part has no string bytes, and is
  rendered between parentheses, the response code between brackets.\<close>

fun Part_toString :: "Part \<Rightarrow> bytes" where
  "Part_toString (String b) = b"
| "Part_toString (List l) = []"

fun Part_render :: "Part \<Rightarrow> bytes" where
  "Part_render (String b) = b @ '' ''"
| "Part_render (List l) = ''('' @ concat (map (\<lambda>item. '' '' @ item) l) @ '' ) ''"

definition Message_toString :: "Message \<Rightarrow> bytes" where
  "Message_toString m =
     concat (map Part_render (content m)) @
     (if responseCode m \<noteq> [] then ''[ '' @ concat (map Part_render (responseCode m)) @ '' ]''
      else [])"

section \<open>The session\<close>

datatype State = Disconnected | NotAuthenticated | Authenticated | Selected

text \<open>A job is known to the session by its pointer; a socket error by its enumerator.\<close>

type_synonym Job = nat
type_synonym SocketError = int

text \<open>
  What the session does to its collaborators (the jobs, the socket, the logger, its own
  signals and the event loop) is recorded, in order, as a list of effects. The jobs and
  the socket are outside the session: what they do in return is an event of its own.
\<close>

text \<open>\<open>QMetaObject::invokeMethod\<close>: the slot and the connection type it is invoked
  with. An invocation with the default type, made in the thread the session lives in, is
  a call of the slot, and is modelled as that call. A queued invocation returns at once
  and runs the slot from the event loop: it is recorded as an effect.\<close>

datatype slot = DoStartNext | WriteDataQueue | ReadMessage

datatype connection = AutoConnection | QueuedConnection

datatype effect =
    JobDoStart Job
  | JobHandleResponse Job Message
  | JobSetSocketError Job SocketError
  | JobConnectionLost Job
  | JobDelete Job
  | SocketClose
  | SocketAbort
  | SocketWrite bytes
  | EmitStateChanged State State
  | EmitJobQueueSizeChanged nat
  | EmitConnectionFailed
  | LoggerDataReceived bytes
  | LoggerDataSent bytes
  | LoggerDisconnectionOccured
  | Debug bytes
  | Warning bytes
  | InvokeMethod slot connection

text \<open>
  \<open>SessionPrivate\<close>. The declaration of \<open>tagCount\<close> (in \<open>session_p.h\<close>) is not among
  the sources: the record leaves its type \<open>'c\<close> open, and \<open>sendCommand\<close> takes it as
  an unsigned machine integer \<open>'w word\<close> of some width \<open>'w\<close>.
\<close>

record 'c SessionPrivate =
  state :: State
  logger :: bool
  currentJob :: "Job option"
  queue :: "Job list"
  jobRunning :: bool
  isSocketConnected :: bool
  tagCount :: 'c
  authTag :: bytes
  selectTag :: bytes
  closeTag :: bytes
  greeting :: bytes
  currentMailBox :: bytes
  upcomingMailBox :: bytes
  dataQueue :: "bytes list"
  socketTimerInterval :: int
  socketTimerActive :: bool
  effects :: "effect list"

definition emit :: "effect \<Rightarrow> 'c SessionPrivate \<Rightarrow> 'c SessionPrivate" where
  "emit e s = s\<lparr> effects := effects s @ [e] \<rparr>"

definition jobQueueSize :: "'c SessionPrivate \<Rightarrow> nat" where
  "jobQueueSize s = length (queue s) + (if jobRunning s then 1 else 0)"

definition serverGreeting :: "'c SessionPrivate \<Rightarrow> bytes" where
  "serverGreeting s = greeting s"

text \<open>\<open>selectedMailBox()\<close> is \<open>QString::fromUtf8(currentMailBox)\<close>; a \<open>QString\<close> is
  represented by its UTF-8 bytes.\<close>

definition selectedMailBox :: "'c SessionPrivate \<Rightarrow> bytes" where
  "selectedMailBox s = currentMailBox s"

subsection \<open>The inactivity timer\<close>

definition startSocketTimer :: "'c SessionPrivate \<Rightarrow> 'c SessionPrivate" where
  "startSocketTimer s =
     (if socketTimerInterval s < 0 then s else s\<lparr> socketTimerActive := True \<rparr>)"

definition stopSocketTimer :: "'c SessionPrivate \<Rightarrow> 'c SessionPrivate" where
  "stopSocketTimer s =
     (if socketTimerInterval s < 0 then s else s\<lparr> socketTimerActive := False \<rparr>)"

definition restartSocketTimer :: "'c SessionPrivate \<Rightarrow> 'c SessionPrivate" where
  "restartSocketTimer s = startSocketTimer (stopSocketTimer s)"

subsection \<open>The state machine\<close>

definition setState :: "State \<Rightarrow> 'c SessionPrivate \<Rightarrow> 'c SessionPrivate" where
  "setState st s =
     (if st \<noteq> state s then emit (EmitStateChanged st (state s)) (s\<lparr> state := st \<rparr>) else s)"

definition closeSocket :: "'c SessionPrivate \<Rightarrow> 'c SessionPrivate" where
  "closeSocket s = emit SocketClose s"

text \<open>The tag and the status code of a response: the first and the second part, empty
  when the response is shorter.\<close>

definition responseTag :: "Message \<Rightarrow> bytes" where
  "responseTag response =
     (if length (content response) \<ge> 1 then Part_toString (content response ! 0) else [])"

definition responseStatus :: "Message \<Rightarrow> bytes" where
  "responseStatus response =
     (if length (content response) \<ge> 2 then Part_toString (content response ! 1) else [])"

text \<open>The copy of the response with the tag and the status code stripped
  (\<open>removeFirst\<close> twice).\<close>

definition simplified :: "Message \<Rightarrow> Message" where
  "simplified response = response\<lparr> content := tl (tl (content response)) \<rparr>"

text \<open>The end of \<open>responseReceived\<close>, after the \<open>switch\<close>: the tracked tags that the
  response's tag equals are cleared, and the response goes to the current job.\<close>

definition clearTags :: "bytes \<Rightarrow> 'c SessionPrivate \<Rightarrow> 'c SessionPrivate" where
  "clearTags tag s =
     (let s1 = (if tag = authTag s then s\<lparr> authTag := [] \<rparr> else s);
          s2 = (if tag = selectTag s1 then s1\<lparr> selectTag := [] \<rparr> else s1)
      in if tag = closeTag s2 then s2\<lparr> closeTag := [] \<rparr> else s2)"

definition forward :: "Message \<Rightarrow> 'c SessionPrivate \<Rightarrow> 'c SessionPrivate" where
  "forward response s =
     (case currentJob s of
        Some job \<Rightarrow> emit (JobHandleResponse job response) (restartSocketTimer s)
      | None \<Rightarrow> emit (Warning (Message_toString response)) s)"

text \<open>The \<open>Disconnected\<close> case of the \<open>switch\<close>: the response is the server's
  greeting, and \<open>responseReceived\<close> returns from there.\<close>

definition greetingReceived :: "Message \<Rightarrow> bytes \<Rightarrow> 'c SessionPrivate \<Rightarrow> 'c SessionPrivate" where
  "greetingReceived response code s =
     (let s1 = stopSocketTimer s
      in if code = ''OK'' then
           setState NotAuthenticated
             (s1\<lparr> greeting := trimmed (Message_toString (simplified response)) \<rparr>)
         else if code = ''PREAUTH'' then
           setState Authenticated
             (s1\<lparr> greeting := trimmed (Message_toString (simplified response)) \<rparr>)
         else closeSocket s1)"

text \<open>The other three cases of the \<open>switch\<close>, each of which ends in \<open>break\<close>.\<close>

definition transition :: "bytes \<Rightarrow> bytes \<Rightarrow> 'c SessionPrivate \<Rightarrow> 'c SessionPrivate" where
  "transition tag code s =
     (case state s of
        Disconnected \<Rightarrow> s
      | NotAuthenticated \<Rightarrow>
          (if code = ''OK'' \<and> tag = authTag s then setState Authenticated s else s)
      | Authenticated \<Rightarrow>
          (if code = ''OK'' \<and> tag = selectTag s
           then (setState Selected s)\<lparr> currentMailBox := upcomingMailBox s \<rparr>
           else s)
      | Selected \<Rightarrow>
          (if (code = ''OK'' \<and> tag = closeTag s) \<or> (code \<noteq> ''OK'' \<and> tag = selectTag s)
           then (setState Authenticated s)\<lparr> currentMailBox := [] \<rparr>
           else if code = ''OK'' \<and> tag = selectTag s
           then s\<lparr> currentMailBox := upcomingMailBox s \<rparr>
           else s))"

definition responseReceived :: "Message \<Rightarrow> 'c SessionPrivate \<Rightarrow> 'c SessionPrivate" where
  "responseReceived response s0 =
     (let s = (if logger s0 \<and> (state s0 = Authenticated \<or> state s0 = Selected)
               then emit (LoggerDataReceived (Message_toString response)) s0 else s0);
          tag = responseTag response;
          code = responseStatus response
      in if code = ''BYE'' then
           emit (Debug (Message_toString
             (if length (content response) \<ge> 2 then simplified response else response))) s
         else if state s = Disconnected then greetingReceived response code s
         else forward response (clearTags tag (transition tag code s)))"

subsection \<open>Sending\<close>

text \<open>\<open>writeDataQueue\<close>: every queued payload is written to the socket, in order.\<close>

definition writeDataQueue :: "'c SessionPrivate \<Rightarrow> 'c SessionPrivate" where
  "writeDataQueue s = s\<lparr> effects := effects s @ map SocketWrite (dataQueue s), dataQueue := [] \<rparr>"

text \<open>\<open>sendData\<close>. \<open>QMetaObject::invokeMethod(this, "writeDataQueue")\<close> has the
  default connection type: called in the session's own thread it runs the slot before
  it returns, so \<open>sendData\<close> ends with the queue written out.\<close>

definition sendData :: "bytes \<Rightarrow> 'c SessionPrivate \<Rightarrow> 'c SessionPrivate" where
  "sendData payload s0 =
     (let s1 = restartSocketTimer s0;
          s2 = (if logger s1 \<and> (state s1 = Authenticated \<or> state s1 = Selected)
                then emit (LoggerDataSent payload) s1 else s1);
          s3 = s2\<lparr> dataQueue := dataQueue s2 @ [payload @ [CHR 0x0D, CHR 0x0A]] \<rparr>
      in writeDataQueue s3)"

text \<open>The tag of a counter value: \<open>'A' + QByteArray::number(n).rightJustified(6, '0')\<close>.\<close>

definition tagOf :: "nat \<Rightarrow> bytes" where
  "tagOf n = CHR ''A'' # rightJustified 6 (CHR ''0'') (number n)"

text \<open>The mailbox argument of SELECT and EXAMINE as \<open>sendCommand\<close> reads it: the first
  byte removed, then everything before the first double quote.\<close>

definition mailBoxArgument :: "bytes \<Rightarrow> bytes" where
  "mailBoxArgument args =
     (let m = remove_first_byte args in left (indexOf (CHR 0x22) m) m)"

text \<open>
  \<open>sendCommand\<close>. \<open>KIMAP2::decodeImapFolderName\<close> (of \<open>rfccodecs\<close>, not among the
  sources) is the parameter \<open>decodeImapFolderName\<close>. The result is the tag and the new
  session.
\<close>

definition sendCommand ::
  "(bytes \<Rightarrow> bytes) \<Rightarrow> bytes \<Rightarrow> bytes \<Rightarrow> ('w::len) word SessionPrivate
     \<Rightarrow> bytes \<times> 'w word SessionPrivate" where
  "sendCommand decodeImapFolderName command args s0 =
     (let s1 = s0\<lparr> tagCount := tagCount s0 + 1 \<rparr>;
          tag = tagOf (unat (tagCount s1));
          payload = tag @ '' '' @ command;
          payload2 = (if args \<noteq> [] then payload @ '' '' @ args else payload);
          s2 = sendData payload2 s1;
          s3 = (if command = ''LOGIN'' \<or> command = ''AUTHENTICATE'' then s2\<lparr> authTag := tag \<rparr>
                else if command = ''SELECT'' \<or> command = ''EXAMINE'' then
                  s2\<lparr> selectTag := tag,
                      upcomingMailBox := decodeImapFolderName (mailBoxArgument args) \<rparr>
                else if command = ''CLOSE'' then s2\<lparr> closeTag := tag \<rparr>
                else s2)
      in (tag, s3))"

subsection \<open>The job queue\<close>

definition doStartNext :: "'c SessionPrivate \<Rightarrow> 'c SessionPrivate" where
  "doStartNext s =
     (if queue s = [] \<or> jobRunning s \<or> \<not> isSocketConnected s then s
      else
        (let s1 = restartSocketTimer s;
             s2 = s1\<lparr> jobRunning := True \<rparr>;
             s3 = s2\<lparr> currentJob := Some (hd (queue s2)), queue := tl (queue s2) \<rparr>
         in emit (JobDoStart (hd (queue s2))) s3))"

text \<open>\<open>startNext\<close>: \<open>QMetaObject::invokeMethod(this, "doStartNext")\<close>, again with the
  default connection type, runs \<open>doStartNext\<close> before it returns.\<close>

definition startNext :: "'c SessionPrivate \<Rightarrow> 'c SessionPrivate" where
  "startNext s = doStartNext s"

definition addJob :: "Job \<Rightarrow> 'c SessionPrivate \<Rightarrow> 'c SessionPrivate" where
  "addJob job s0 =
     (let s1 = s0\<lparr> queue := queue s0 @ [job] \<rparr>;
          s2 = emit (EmitJobQueueSizeChanged (jobQueueSize s1)) s1
      in startNext s2)"

definition jobDone :: "Job \<Rightarrow> 'c SessionPrivate \<Rightarrow> 'c SessionPrivate" where
  "jobDone job s0 =
     (let s1 = stopSocketTimer s0;
          s2 = s1\<lparr> jobRunning := False, currentJob := None \<rparr>;
          s3 = emit (EmitJobQueueSizeChanged (jobQueueSize s2)) s2
      in startNext s3)"

definition jobDestroyed :: "Job \<Rightarrow> 'c SessionPrivate \<Rightarrow> 'c SessionPrivate" where
  "jobDestroyed job s0 =
     (let s1 = s0\<lparr> queue := removeAll job (queue s0) \<rparr>
      in if currentJob s1 = Some job then s1\<lparr> currentJob := None \<rparr> else s1)"

text \<open>\<open>qDeleteAll(queueCopy)\<close>: each job of the copy is deleted in turn, and its
  \<open>destroyed\<close> signal runs \<open>jobDestroyed\<close>.\<close>

fun deleteAll :: "Job list \<Rightarrow> 'c SessionPrivate \<Rightarrow> 'c SessionPrivate" where
  "deleteAll [] s = s"
| "deleteAll (job # jobs) s = deleteAll jobs (jobDestroyed job (emit (JobDelete job) s))"

definition clearJobQueue :: "'c SessionPrivate \<Rightarrow> 'c SessionPrivate" where
  "clearJobQueue s0 =
     (let s1 = (case currentJob s0 of
                  Some job \<Rightarrow> emit (JobConnectionLost job) s0
                | None \<Rightarrow>
                    (if queue s0 \<noteq> [] then
                       emit (JobConnectionLost (hd (queue s0)))
                         (s0\<lparr> currentJob := Some (hd (queue s0)), queue := tl (queue s0) \<rparr>)
                     else s0));
          queueCopy = queue s1;
          s2 = deleteAll queueCopy s1;
          s3 = s2\<lparr> queue := [] \<rparr>
      in emit (EmitJobQueueSizeChanged 0) s3)"

subsection \<open>Socket events\<close>

definition socketConnected :: "'c SessionPrivate \<Rightarrow> 'c SessionPrivate" where
  "socketConnected s = startNext (s\<lparr> isSocketConnected := True \<rparr>)"

definition socketDisconnected :: "'c SessionPrivate \<Rightarrow> 'c SessionPrivate" where
  "socketDisconnected s0 =
     (let s1 = stopSocketTimer s0;
          s2 = (if logger s1 \<and> (state s1 = Authenticated \<or> state s1 = Selected)
                then emit LoggerDisconnectionOccured s1 else s1);
          s3 = (if state s2 \<noteq> Disconnected then setState Disconnected s2
                else emit EmitConnectionFailed s2);
          s4 = s3\<lparr> isSocketConnected := False \<rparr>
      in clearJobQueue s4)"

definition socketError :: "SocketError \<Rightarrow> 'c SessionPrivate \<Rightarrow> 'c SessionPrivate" where
  "socketError error s0 =
     (let s1 = stopSocketTimer s0;
          s2 = (case currentJob s1 of
                  Some job \<Rightarrow> emit (JobSetSocketError job error) s1
                | None \<Rightarrow>
                    (if queue s1 \<noteq> [] then
                       emit (JobSetSocketError (hd (queue s1)) error)
                         (s1\<lparr> currentJob := Some (hd (queue s1)), queue := tl (queue s1) \<rparr>)
                     else s1))
      in if isSocketConnected s2 then closeSocket s2 else s2)"

definition socketActivity :: "'c SessionPrivate \<Rightarrow> 'c SessionPrivate" where
  "socketActivity s = restartSocketTimer s"

definition onSocketTimeout :: "'c SessionPrivate \<Rightarrow> 'c SessionPrivate" where
  "onSocketTimeout s = emit SocketAbort s"

text \<open>The session as its constructors leave it.\<close>

definition newSession :: "'c \<Rightarrow> bool \<Rightarrow> 'c SessionPrivate" where
  "newSession zero withLogger =
     startSocketTimer
       \<lparr> state = Disconnected, logger = withLogger, currentJob = None, queue = [],
         jobRunning = False, isSocketConnected = False, tagCount = zero, authTag = [],
         selectTag = [], closeTag = [], greeting = [], currentMailBox = [],
         upcomingMailBox = [], dataQueue = [], socketTimerInterval = 30000,
         socketTimerActive = False, effects = [] \<rparr>"

subsection \<open>Runs of a session\<close>

text \<open>What happens to a connected session between two socket events: responses arrive
  and commands are sent. A run returns the tags it allocated, in order.\<close>

datatype event = Response Message | Command bytes bytes

fun run ::
  "(bytes \<Rightarrow> bytes) \<Rightarrow> event list \<Rightarrow> ('w::len) word SessionPrivate
     \<Rightarrow> bytes list \<times> 'w word SessionPrivate" where
  "run dec [] s = ([], s)"
| "run dec (Response r # es) s = run dec es (responseReceived r s)"
| "run dec (Command c a # es) s =
     (case sendCommand dec c a s of
        (tag, s1) \<Rightarrow> (case run dec es s1 of (tags, s2) \<Rightarrow> (tag # tags, s2)))"

text \<open>The number of commands of a run.\<close>

fun ncommands :: "event list \<Rightarrow> nat" where
  "ncommands [] = 0"
| "ncommands (Response r # es) = ncommands es"
| "ncommands (Command c a # es) = Suc (ncommands es)"

text \<open>An event that leaves a pending SELECT or EXAMINE with tag \<open>tag\<close> pending: a
  response with another tag, or a command other than SELECT and EXAMINE.\<close>

fun keepsSelect :: "bytes \<Rightarrow> event \<Rightarrow> bool" where
  "keepsSelect tag (Response r) = (responseTag r \<noteq> tag)"
| "keepsSelect tag (Command c a) = (c \<noteq> ''SELECT'' \<and> c \<noteq> ''EXAMINE'')"

text \<open>A SELECT or EXAMINE of the mailbox \<open>name\<close> is pending under \<open>tag\<close>, in a state
  from which its completion selects.\<close>

definition pendingSelect :: "bytes \<Rightarrow> bytes \<Rightarrow> 'c SessionPrivate \<Rightarrow> bool" where
  "pendingSelect tag name s =
     (selectTag s = tag \<and> closeTag s \<noteq> tag \<and> upcomingMailBox s = name \<and>
      (state s = Authenticated \<or> state s = Selected))"

text \<open>The number a tag carries: its bytes after the leading letter, read as decimal
  digits.\<close>

definition digit_value :: "char \<Rightarrow> nat" where
  "digit_value c = of_char c - 48"

definition decimal :: "bytes \<Rightarrow> nat" where
  "decimal b = foldl (\<lambda>a c. 10 * a + digit_value c) 0 b"

definition tagNumber :: "bytes \<Rightarrow> nat" where
  "tagNumber tag = decimal (tl tag)"

text \<open>The first lines of \<open>responseReceived\<close>: what the logger is given.\<close>

definition loggedReceived :: "'c SessionPrivate \<Rightarrow> Message \<Rightarrow> effect list" where
  "loggedReceived s r =
     (if logger s \<and> (state s = Authenticated \<or> state s = Selected)
      then [LoggerDataReceived (Message_toString r)] else [])"

text \<open>A tag is untracked when none of the three tracked tags holds it.\<close>

definition untracked :: "bytes \<Rightarrow> 'c SessionPrivate \<Rightarrow> bool" where
  "untracked t s = (t \<noteq> authTag s \<and> t \<noteq> selectTag s \<and> t \<noteq> closeTag s)"

text \<open>
  The transition table of the spec (section 4.4), for comparison with the code: the
  rows of \<open>Disconnected\<close> cover every status of a greeting (OK, PREAUTH, anything else);
  the other rows are a completion with a tracked tag.
\<close>

definition spec_transitionRule :: "'c SessionPrivate \<Rightarrow> Message \<Rightarrow> bool" where
  "spec_transitionRule s r =
     (state s = Disconnected \<or>
      (state s = NotAuthenticated \<and> responseStatus r = ''OK'' \<and> responseTag r = authTag s) \<or>
      (state s = Authenticated \<and> responseStatus r = ''OK'' \<and> responseTag r = selectTag s) \<or>
      (state s = Selected \<and> responseStatus r = ''OK'' \<and> responseTag r = selectTag s) \<or>
      (state s = Selected \<and> responseStatus r = ''OK'' \<and> responseTag r = closeTag s) \<or>
      (state s = Selected \<and> responseStatus r \<noteq> ''OK'' \<and> responseTag r = selectTag s))"

subsection \<open>Who is told of an error or a disconnect\<close>

text \<open>The job that \<open>socketError\<close> and \<open>clearJobQueue\<close> address: the current job, or
  else the first of the queue (which they make current). The bystanders are the jobs
  that stay in the queue.\<close>

definition receiver :: "'c SessionPrivate \<Rightarrow> Job option" where
  "receiver s =
     (case currentJob s of
        Some job \<Rightarrow> Some job
      | None \<Rightarrow> (if queue s \<noteq> [] then Some (hd (queue s)) else None))"

definition bystanders :: "'c SessionPrivate \<Rightarrow> Job list" where
  "bystanders s = (case currentJob s of Some job \<Rightarrow> queue s | None \<Rightarrow> tl (queue s))"

text \<open>The effects of a step: those of the session after it that were not there
  before.\<close>

definition newEffects :: "'c SessionPrivate \<Rightarrow> 'c SessionPrivate \<Rightarrow> effect list" where
  "newEffects s s2 = drop (length (effects s)) (effects s2)"

text \<open>How often a job is given \<open>setSocketError\<close>, and how often \<open>connectionLost\<close>.\<close>

fun isSocketError :: "Job \<Rightarrow> effect \<Rightarrow> bool" where
  "isSocketError job (JobSetSocketError j e) = (j = job)"
| "isSocketError job _ = False"

fun isConnectionLost :: "Job \<Rightarrow> effect \<Rightarrow> bool" where
  "isConnectionLost job (JobConnectionLost j) = (j = job)"
| "isConnectionLost job _ = False"

definition countSocketError :: "Job \<Rightarrow> effect list \<Rightarrow> nat" where
  "countSocketError job es = length (filter (isSocketError job) es)"

definition countConnectionLost :: "Job \<Rightarrow> effect list \<Rightarrow> nat" where
  "countConnectionLost job es = length (filter (isConnectionLost job) es)"

subsection \<open>Example sessions and responses\<close>

text \<open>A response whose parts are all strings.\<close>

definition response :: "bytes list \<Rightarrow> Message" where
  "response ws = \<lparr> content = map String ws, responseCode = [] \<rparr>"

text \<open>A session with a 16-bit tag counter in state \<open>Selected\<close> on INBOX, job 1 running,
  no command pending.\<close>

definition selectedSession :: "16 word SessionPrivate" where
  "selectedSession =
     (newSession 0 False)\<lparr> state := Selected, isSocketConnected := True,
        currentJob := Some 1, jobRunning := True, currentMailBox := ''INBOX'' \<rparr>"

text \<open>A session with a 16-bit tag counter in state \<open>NotAuthenticated\<close>, job 1 running,
  no command pending.\<close>

definition notAuthSession :: "16 word SessionPrivate" where
  "notAuthSession =
     (newSession 0 False)\<lparr> state := NotAuthenticated, isSocketConnected := True,
        currentJob := Some 1, jobRunning := True \<rparr>"

text \<open>The selected session with two more jobs queued behind the running one.\<close>

definition queuedSession :: "16 word SessionPrivate" where
  "queuedSession = selectedSession\<lparr> queue := [2, 3] \<rparr>"

text \<open>A session that is not connected yet, to which jobs 2 and 3 have been added: none
  is started, both wait in the queue.\<close>

definition waitingSession :: "16 word SessionPrivate" where
  "waitingSession = addJob 3 (addJob 2 (newSession 0 False))"

section \<open>The session thread and the TLS version ladder\<close>

text \<open>
  \<open>SessionThread\<close> of the first version keeps a bitset of the TLS versions it has tried.
  \<open>KTcpSocket::SslVersion\<close> is an enumeration of flags of the socket library; the code
  names \<open>UnknownSslVersion\<close>, \<open>SslV2\<close>, \<open>SslV3\<close>, \<open>TlsV1\<close> and \<open>AnySslVersion\<close>.
  \<open>TlsV1_1\<close> and \<open>TlsV1_2\<close> are the two further versions that the spec's ladder names; the
  code never mentions them.
\<close>

datatype SslVersion =
  UnknownSslVersion | SslV2 | SslV3 | TlsV1 | TlsV1_1 | TlsV1_2 | AnySslVersion

fun sslFlag :: "SslVersion \<Rightarrow> int" where
  "sslFlag UnknownSslVersion = 0x01"
| "sslFlag SslV2 = 0x02"
| "sslFlag SslV3 = 0x04"
| "sslFlag TlsV1 = 0x08"
| "sslFlag TlsV1_1 = 0x40"
| "sslFlag TlsV1_2 = 0x80"
| "sslFlag AnySslVersion = (0x02 OR 0x04 OR 0x08)"

datatype SocketState =
  UnconnectedState | HostLookupState | HostFoundState | ConnectingState | ConnectedState
  | ClosingState

text \<open>What the thread asks of its socket and tells the session, in order.\<close>

datatype call =
    SetAdvertisedSslVersion SslVersion
  | IgnoreSslErrors
  | StartClientEncryption
  | ConnectToHost
  | ConnectToHostEncrypted
  | DisconnectFromHost
  | SessionSocketDisconnected
  | SessionSocketError
  | Close
  | QWarning bytes
  | EmitResponseReceived Message
  | SingleShot slot

text \<open>The members of \<open>SessionThread\<close> that the ladder reads and writes, and of its socket
  the state and the advertised version.\<close>

record SessionThread =
  m_encryptedMode :: bool
  triedSslVersions :: int
  doSslFallback :: bool
  socketState :: SocketState
  advertisedSslVersion :: SslVersion
  calls :: "call list"

definition call :: "call \<Rightarrow> SessionThread \<Rightarrow> SessionThread" where
  "call c t = t\<lparr> calls := calls t @ [c] \<rparr>"

definition setAdvertisedSslVersion :: "SslVersion \<Rightarrow> SessionThread \<Rightarrow> SessionThread" where
  "setAdvertisedSslVersion v t =
     call (SetAdvertisedSslVersion v) (t\<lparr> advertisedSslVersion := v \<rparr>)"

definition startSsl :: "SslVersion \<Rightarrow> SessionThread \<Rightarrow> SessionThread" where
  "startSsl version t =
     (let t1 =
        (if version = AnySslVersion then
           (let t0 = t\<lparr> doSslFallback := True \<rparr>
            in if advertisedSslVersion t0 = UnknownSslVersion then
                 setAdvertisedSslVersion AnySslVersion t0
               else if triedSslVersions t0 AND sslFlag TlsV1 = 0 then
                 setAdvertisedSslVersion TlsV1
                   (t0\<lparr> triedSslVersions := triedSslVersions t0 OR sslFlag TlsV1 \<rparr>)
               else if triedSslVersions t0 AND sslFlag SslV3 = 0 then
                 setAdvertisedSslVersion SslV3
                   (t0\<lparr> triedSslVersions := triedSslVersions t0 OR sslFlag SslV3 \<rparr>)
               else if triedSslVersions t0 AND sslFlag SslV2 = 0 then
                 (setAdvertisedSslVersion SslV2
                   (t0\<lparr> triedSslVersions := triedSslVersions t0 OR sslFlag SslV2 \<rparr>))
                   \<lparr> doSslFallback := False \<rparr>
               else t0)
         else setAdvertisedSslVersion version t)
      in call StartClientEncryption (call IgnoreSslErrors t1))"

definition reconnect :: "SessionThread \<Rightarrow> SessionThread" where
  "reconnect t =
     (if socketState t \<noteq> ConnectedState \<and> socketState t \<noteq> ConnectingState then
        (if m_encryptedMode t then call ConnectToHostEncrypted t else call ConnectToHost t)
      else t)"

definition SessionThread_socketDisconnected :: "SessionThread \<Rightarrow> SessionThread" where
  "SessionThread_socketDisconnected t =
     (if doSslFallback t then reconnect t else call SessionSocketDisconnected t)"

definition SessionThread_socketError :: "SessionThread \<Rightarrow> SessionThread" where
  "SessionThread_socketError t =
     (if doSslFallback t then call DisconnectFromHost t else call SessionSocketError t)"

text \<open>The thread as its constructor leaves it, on a socket that advertises \<open>v\<close>.\<close>

definition newSessionThread :: "SslVersion \<Rightarrow> SessionThread" where
  "newSessionThread v =
     \<lparr> m_encryptedMode = False, triedSslVersions = 0, doSslFallback = False,
       socketState = UnconnectedState, advertisedSslVersion = v, calls = [] \<rparr>"

text \<open>Between two attempts the connection is lost: the socket is unconnected when the
  thread's \<open>socketDisconnected\<close> runs, and connected again afterwards.\<close>

definition reconnected :: "SessionThread \<Rightarrow> SessionThread" where
  "reconnected t =
     (SessionThread_socketDisconnected (t\<lparr> socketState := UnconnectedState \<rparr>))
       \<lparr> socketState := ConnectedState \<rparr>"

text \<open>The thread after attempt number \<open>k\<close> (from 0) of \<open>startSsl(AnySslVersion)\<close>, each
  attempt but the last followed by the loss of the connection.\<close>

definition attempt :: "nat \<Rightarrow> SessionThread \<Rightarrow> SessionThread" where
  "attempt k t =
     startSsl AnySslVersion (((\<lambda>u. reconnected (startSsl AnySslVersion u)) ^^ k) t)"

definition newCalls :: "SessionThread \<Rightarrow> SessionThread \<Rightarrow> call list" where
  "newCalls t t2 = drop (length (calls t)) (calls t2)"


text \<open>What an attempt leaves behind: the version advertised, the bitset, the fallback
  flag, and what the thread does when the connection is lost after it.\<close>

definition afterAttempt :: "nat \<Rightarrow> SessionThread \<Rightarrow> SslVersion \<times> int \<times> bool \<times> call list" where
  "afterAttempt k t =
     (advertisedSslVersion (attempt k t), triedSslVersions (attempt k t),
      doSslFallback (attempt k t), newCalls (attempt k t) (reconnected (attempt k t)))"

section \<open>The stream parser\<close>

text \<open>
  \<open>ImapStreamParser\<close> is not among the sources. The reader is modelled over any parser:
  the member functions it calls are the fields of a record, each taking the parser's
  state and returning its result with the new state.
\<close>

record 'p StreamOps =
  availableDataSize :: "'p \<Rightarrow> nat"
  parse :: "'p \<Rightarrow> bool \<times> 'p"
  saveState :: "'p \<Rightarrow> 'p"
  restoreState :: "'p \<Rightarrow> 'p"
  trimBuffer :: "'p \<Rightarrow> 'p"
  insufficientData :: "'p \<Rightarrow> bool"
  atCommandEnd :: "'p \<Rightarrow> bool \<times> 'p"
  hasString :: "'p \<Rightarrow> bool \<times> 'p"
  readString :: "'p \<Rightarrow> bytes \<times> 'p"
  hasList :: "'p \<Rightarrow> bool \<times> 'p"
  readParenthesizedList :: "'p \<Rightarrow> bytes list \<times> 'p"
  hasResponseCode :: "'p \<Rightarrow> bool \<times> 'p"
  atResponseCodeEnd :: "'p \<Rightarrow> bool \<times> 'p"
  hasLiteral :: "'p \<Rightarrow> bool \<times> 'p"
  atLiteralEnd :: "'p \<Rightarrow> bool \<times> 'p"
  readLiteralPart :: "'p \<Rightarrow> bytes \<times> 'p"
  streamData :: "'p \<Rightarrow> bytes"

section \<open>The reader of the session\<close>

text \<open>The list that \<open>payload\<close> points to.\<close>

datatype payload = ToContent | ToResponseCode

fun append_part :: "payload \<Rightarrow> Part \<Rightarrow> Message \<Rightarrow> Message" where
  "append_part ToContent part m = m\<lparr> content := content m @ [part] \<rparr>"
| "append_part ToResponseCode part m = m\<lparr> responseCode := responseCode m @ [part] \<rparr>"

text \<open>The inner loop \<open>while (!stream->atLiteralEnd()) literal += stream->readLiteralPart()\<close>.
  The loops of the reader may run forever on some parser, so they take fuel: \<open>None\<close> is
  a loop that has not ended when the fuel is used up.\<close>

fun readLiteral :: "'p StreamOps \<Rightarrow> nat \<Rightarrow> 'p \<Rightarrow> bytes \<Rightarrow> (bytes \<times> 'p) option" where
  "readLiteral ops 0 p literal = None"
| "readLiteral ops (Suc n) p literal =
     (case atLiteralEnd ops p of
        (True, p1) \<Rightarrow> Some (literal, p1)
      | (False, p1) \<Rightarrow>
          (case readLiteralPart ops p1 of (part, p2) \<Rightarrow> readLiteral ops n p2 (literal @ part)))"

text \<open>How the outer loop of \<open>SessionPrivate::readMessage\<close> is left: by its condition, by
  \<open>return\<close> after \<open>abort\<close>, or by \<open>break\<close>.\<close>

datatype loop_end = AtCommandEnd | Inconsistent | Starved

text \<open>The outer loop (session.cpp, lines 516 to 553), from the parser \<open>p\<close>, with
  \<open>payload\<close> pointing to \<open>pl\<close> and the message built so far.\<close>

fun readParts ::
  "'p StreamOps \<Rightarrow> nat \<Rightarrow> 'p \<Rightarrow> payload \<Rightarrow> Message \<Rightarrow> (loop_end \<times> 'p \<times> Message) option" where
  "readParts ops 0 p pl m = None"
| "readParts ops (Suc n) p pl m =
     (case atCommandEnd ops p of
        (True, p1) \<Rightarrow> Some (AtCommandEnd, p1, m)
      | (False, p1) \<Rightarrow>
     (case hasString ops p1 of
        (True, p2) \<Rightarrow>
          (case readString ops p2 of
             (string, p3) \<Rightarrow>
               readParts ops n p3 pl
                 (if \<not> insufficientData ops p3 then
                    (if string = ''NIL'' then append_part pl (List []) m
                     else append_part pl (String string) m)
                  else m))
      | (False, p2) \<Rightarrow>
     (case hasList ops p2 of
        (True, p3) \<Rightarrow>
          (case readParenthesizedList ops p3 of
             (list, p4) \<Rightarrow>
               readParts ops n p4 pl
                 (if \<not> insufficientData ops p4 then append_part pl (List list) m else m))
      | (False, p3) \<Rightarrow>
     (case hasResponseCode ops p3 of
        (True, p4) \<Rightarrow> readParts ops n p4 ToResponseCode m
      | (False, p4) \<Rightarrow>
     (case atResponseCodeEnd ops p4 of
        (True, p5) \<Rightarrow> readParts ops n p5 ToContent m
      | (False, p5) \<Rightarrow>
     (case hasLiteral ops p5 of
        (True, p6) \<Rightarrow>
          (case readLiteral ops n p6 [] of
             None \<Rightarrow> None
           | Some (literal, p7) \<Rightarrow>
               readParts ops n p7 pl
                 (if \<not> insufficientData ops p7 then append_part pl (String literal) m else m))
      | (False, p6) \<Rightarrow>
          (if \<not> insufficientData ops p6 then Some (Inconsistent, p6, m)
           else Some (Starved, p6, m))))))))"

text \<open>
  \<open>SessionPrivate::readMessage\<close>, on the parser and the session. The stream is never
  null after the constructor. \<open>socket->abort()\<close> and the queued invocation of
  \<open>readMessage\<close> are recorded as effects: the drain itself never calls itself.
\<close>

definition readMessage ::
  "'p StreamOps \<Rightarrow> nat \<Rightarrow> 'p \<times> 'c SessionPrivate \<Rightarrow> ('p \<times> 'c SessionPrivate) option" where
  "readMessage ops fuel ps =
     (case ps of
        (p, s) \<Rightarrow>
          if availableDataSize ops p = 0 then Some (p, s)
          else
            (case parse ops p of
               (False, p1) \<Rightarrow> Some (p1, s)
             | (True, p1) \<Rightarrow>
                 (case readParts ops fuel (saveState ops p1) ToContent emptyMessage of
                    None \<Rightarrow> None
                  | Some (e, p2, message) \<Rightarrow>
                      if e = Inconsistent then
                        Some (p2,
                          emit SocketAbort
                            (emit (Warning (''Inconsistent data: '' @ streamData ops p2)) s))
                      else if insufficientData ops p2 then Some (restoreState ops p2, s)
                      else
                        (let p3 = trimBuffer ops p2;
                             s1 = responseReceived message s
                         in Some (p3,
                              if availableDataSize ops p3 \<ge> 1
                              then emit (InvokeMethod ReadMessage QueuedConnection) s1
                              else s1)))))"

section \<open>The reader of the session thread\<close>

text \<open>
  \<open>SessionThread::readMessage\<close> of the first version (sessionthread.cpp, lines 79 to
  130), the reader of the thread class that \<open>session.cpp\<close> does not use. The member
  functions of its parser may throw \<open>ImapParserException\<close>: \<open>raised\<close> tells of the
  parser's state after a call whether the call threw. This reader calls neither \<open>parse\<close>
  nor \<open>saveState\<close>, \<open>restoreState\<close>, \<open>trimBuffer\<close> or \<open>insufficientData\<close>. The mutex is
  not modelled; the signal, the warnings and the timer shot are recorded as calls.
\<close>

datatype thread_loop_end = CommandEnd | InconsistentState | ParserException

fun SessionThread_readLiteral ::
  "'p StreamOps \<Rightarrow> ('p \<Rightarrow> bool) \<Rightarrow> nat \<Rightarrow> 'p \<Rightarrow> bytes \<Rightarrow> (bytes option \<times> 'p) option" where
  "SessionThread_readLiteral ops raised 0 p literal = None"
| "SessionThread_readLiteral ops raised (Suc n) p literal =
     (case atLiteralEnd ops p of
        (b, p1) \<Rightarrow>
          if raised p1 then Some (None, p1)
          else if b then Some (Some literal, p1)
          else
            (case readLiteralPart ops p1 of
               (part, p2) \<Rightarrow>
                 if raised p2 then Some (None, p2)
                 else SessionThread_readLiteral ops raised n p2 (literal @ part)))"

fun SessionThread_readParts ::
  "'p StreamOps \<Rightarrow> ('p \<Rightarrow> bool) \<Rightarrow> nat \<Rightarrow> 'p \<Rightarrow> payload \<Rightarrow> Message
     \<Rightarrow> (thread_loop_end \<times> 'p \<times> Message) option" where
  "SessionThread_readParts ops raised 0 p pl m = None"
| "SessionThread_readParts ops raised (Suc n) p pl m =
     (case atCommandEnd ops p of (b1, p1) \<Rightarrow>
        if raised p1 then Some (ParserException, p1, m)
        else if b1 then Some (CommandEnd, p1, m)
        else
     (case hasString ops p1 of (b2, p2) \<Rightarrow>
        if raised p2 then Some (ParserException, p2, m)
        else if b2 then
          (case readString ops p2 of
             (string, p3) \<Rightarrow>
               if raised p3 then Some (ParserException, p3, m)
               else
                 SessionThread_readParts ops raised n p3 pl
                   (if string = ''NIL'' then append_part pl (List []) m
                    else append_part pl (String string) m))
        else
     (case hasList ops p2 of (b3, p3) \<Rightarrow>
        if raised p3 then Some (ParserException, p3, m)
        else if b3 then
          (case readParenthesizedList ops p3 of
             (list, p4) \<Rightarrow>
               if raised p4 then Some (ParserException, p4, m)
               else SessionThread_readParts ops raised n p4 pl (append_part pl (List list) m))
        else
     (case hasResponseCode ops p3 of (b4, p4) \<Rightarrow>
        if raised p4 then Some (ParserException, p4, m)
        else if b4 then SessionThread_readParts ops raised n p4 ToResponseCode m
        else
     (case atResponseCodeEnd ops p4 of (b5, p5) \<Rightarrow>
        if raised p5 then Some (ParserException, p5, m)
        else if b5 then SessionThread_readParts ops raised n p5 ToContent m
        else
     (case hasLiteral ops p5 of (b6, p6) \<Rightarrow>
        if raised p6 then Some (ParserException, p6, m)
        else if b6 then
          (case SessionThread_readLiteral ops raised n p6 [] of
             None \<Rightarrow> None
           | Some (None, p7) \<Rightarrow> Some (ParserException, p7, m)
           | Some (Some literal, p7) \<Rightarrow>
               SessionThread_readParts ops raised n p7 pl (append_part pl (String literal) m))
        else Some (InconsistentState, p6, m)))))))"

definition doCloseSocket :: "SessionThread \<Rightarrow> SessionThread" where
  "doCloseSocket t = call Close (t\<lparr> m_encryptedMode := False \<rparr>)"

definition SessionThread_readMessage ::
  "'p StreamOps \<Rightarrow> ('p \<Rightarrow> bool) \<Rightarrow> nat \<Rightarrow> 'p \<times> SessionThread
     \<Rightarrow> ('p \<times> SessionThread) option" where
  "SessionThread_readMessage ops raised fuel pt =
     (case pt of
        (p, t) \<Rightarrow>
          if availableDataSize ops p = 0 then Some (p, t)
          else
            (case SessionThread_readParts ops raised fuel p ToContent emptyMessage of
               None \<Rightarrow> None
             | Some (e, p2, message) \<Rightarrow>
                 if e = InconsistentState then
                   Some (p2, doCloseSocket
                     (call (QWarning ''Inconsistent state, probably due to some packet loss'') t))
                 else
                   (let t1 = (if e = CommandEnd then call (EmitResponseReceived message) t
                              else call (QWarning ''The stream parser raised an exception:'') t)
                    in Some (p2,
                         if availableDataSize ops p2 > 1 then call (SingleShot ReadMessage) t1
                         else t1))))"

section \<open>What the reader read\<close>






section \<open>A parser after the spec\<close>

text \<open>Modelled from the spec: \<open>ImapStreamParser\<close> (imapstreamparser.cpp) is not among the
  sources. This is the parser of section 4.1 of the spec: a byte buffer, a read cursor, a
  saved cursor, the \<open>insufficientData\<close> flag, the count of literal bytes still to read,
  and a flag for a token that cannot be (the spec's \<open>ParserFault\<close>), after which no
  predicate holds. Blanks between tokens are skipped by the predicates; a predicate that
  finds the buffer used up sets \<open>insufficientData\<close>, and once it is set no predicate
  holds until \<open>restoreState\<close>.\<close>

record StreamParser =
  buffer :: bytes
  cursor :: nat
  checkpoint :: nat
  insufficient :: bool
  literalLeft :: nat
  fault :: bool

definition newStreamParser :: StreamParser where
  "newStreamParser =
     \<lparr> buffer = [], cursor = 0, checkpoint = 0, insufficient = False, literalLeft = 0,
       fault = False \<rparr>"

definition feed :: "bytes \<Rightarrow> StreamParser \<Rightarrow> StreamParser" where
  "feed b p = p\<lparr> buffer := buffer p @ b \<rparr>"

definition unread :: "StreamParser \<Rightarrow> bytes" where
  "unread p = drop (cursor p) (buffer p)"

definition advance :: "nat \<Rightarrow> StreamParser \<Rightarrow> StreamParser" where
  "advance n p = p\<lparr> cursor := cursor p + n \<rparr>"

definition starve :: "StreamParser \<Rightarrow> StreamParser" where
  "starve p = p\<lparr> insufficient := True \<rparr>"

definition CR :: char where "CR = CHR 0x0D"
definition LF :: char where "LF = CHR 0x0A"

fun hasCRLF :: "bytes \<Rightarrow> bool" where
  "hasCRLF (a # b # xs) = ((a = CR \<and> b = LF) \<or> hasCRLF (b # xs))"
| "hasCRLF xs = False"

definition isDelimiter :: "char \<Rightarrow> bool" where
  "isDelimiter c =
     (c = CHR '' '' \<or> c = CHR ''('' \<or> c = CHR '')'' \<or> c = CHR ''{'' \<or> c = CHR ''['' \<or>
      c = CHR '']'' \<or> c = CR \<or> c = LF)"

text \<open>The next byte after the blanks, if the parser may look at one.\<close>

definition peek :: "StreamParser \<Rightarrow> char option \<times> StreamParser" where
  "peek p =
     (if insufficient p \<or> fault p then (None, p)
      else
        (let p1 = advance (length (takeWhile (\<lambda>c. c = CHR '' '') (unread p))) p
         in case unread p1 of [] \<Rightarrow> (None, starve p1) | c # xs \<Rightarrow> (Some c, p1)))"

definition sp_availableDataSize :: "StreamParser \<Rightarrow> nat" where
  "sp_availableDataSize p = length (buffer p) - cursor p"

definition sp_parse :: "StreamParser \<Rightarrow> bool \<times> StreamParser" where
  "sp_parse p = (hasCRLF (unread p), p)"

definition sp_saveState :: "StreamParser \<Rightarrow> StreamParser" where
  "sp_saveState p = p\<lparr> checkpoint := cursor p \<rparr>"

definition sp_restoreState :: "StreamParser \<Rightarrow> StreamParser" where
  "sp_restoreState p = p\<lparr> cursor := checkpoint p, insufficient := False, literalLeft := 0 \<rparr>"

definition sp_trimBuffer :: "StreamParser \<Rightarrow> StreamParser" where
  "sp_trimBuffer p = p\<lparr> buffer := drop (cursor p) (buffer p), cursor := 0, checkpoint := 0 \<rparr>"

definition sp_atCommandEnd :: "StreamParser \<Rightarrow> bool \<times> StreamParser" where
  "sp_atCommandEnd p =
     (case peek p of
        (None, p1) \<Rightarrow> (False, p1)
      | (Some c, p1) \<Rightarrow>
          (if c = CR then
             (case tl (unread p1) of
                [] \<Rightarrow> (False, starve p1)
              | d # xs \<Rightarrow> if d = LF then (True, advance 2 p1) else (False, p1))
           else (False, p1)))"

definition sp_hasString :: "StreamParser \<Rightarrow> bool \<times> StreamParser" where
  "sp_hasString p =
     (case peek p of (None, p1) \<Rightarrow> (False, p1) | (Some c, p1) \<Rightarrow> (\<not> isDelimiter c, p1))"

text \<open>A quoted string after its opening quote: the string and the number of bytes read
  up to and with the closing quote; or the buffer ends first; or a backslash escapes
  something other than a quote or a backslash.\<close>

datatype quoted = Quoted bytes nat | Unterminated | BadEscape

fun scanQuoted :: "bytes \<Rightarrow> quoted" where
  "scanQuoted [] = Unterminated"
| "scanQuoted (c # xs) =
     (if c = CHR 0x22 then Quoted [] 1
      else if c = CHR 0x5C then
        (case xs of
           [] \<Rightarrow> Unterminated
         | e # ys \<Rightarrow>
             (if e = CHR 0x22 \<or> e = CHR 0x5C then
                (case scanQuoted ys of Quoted s n \<Rightarrow> Quoted (e # s) (n + 2) | r \<Rightarrow> r)
              else BadEscape))
      else (case scanQuoted xs of Quoted s n \<Rightarrow> Quoted (c # s) (n + 1) | r \<Rightarrow> r))"

definition sp_readString :: "StreamParser \<Rightarrow> bytes \<times> StreamParser" where
  "sp_readString p =
     (case unread p of
        [] \<Rightarrow> ([], starve p)
      | c # xs \<Rightarrow>
          (if c = CHR 0x22 then
             (case scanQuoted xs of
                Quoted s n \<Rightarrow> (s, advance (n + 1) p)
              | Unterminated \<Rightarrow> ([], starve p)
              | BadEscape \<Rightarrow> ([], p\<lparr> fault := True \<rparr>))
           else
             (let a = takeWhile (\<lambda>b. \<not> isDelimiter b) (c # xs)
              in if length a = length (c # xs) then ([], starve p)
                 else (a, advance (length a) p))))"

definition sp_hasList :: "StreamParser \<Rightarrow> bool \<times> StreamParser" where
  "sp_hasList p =
     (case peek p of (None, p1) \<Rightarrow> (False, p1) | (Some c, p1) \<Rightarrow> (c = CHR ''('', p1))"

text \<open>A parenthesized list after its opening parenthesis, flattened: the atoms between
  blanks and parentheses of any depth, and the number of bytes read up to and with the
  closing parenthesis.\<close>

definition flush :: "bytes \<Rightarrow> bytes list \<Rightarrow> bytes list" where
  "flush cur items = (if cur = [] then items else items @ [cur])"

fun scanList :: "nat \<Rightarrow> bytes \<Rightarrow> bytes list \<Rightarrow> bytes \<Rightarrow> (bytes list \<times> nat) option" where
  "scanList depth cur items [] = None"
| "scanList depth cur items (c # xs) =
     (if c = CHR '')'' \<and> depth = 0 then Some (flush cur items, 1)
      else
        map_option (\<lambda>(l, n). (l, n + 1))
          (if c = CHR '')'' then scanList (depth - 1) [] (flush cur items) xs
           else if c = CHR ''('' then scanList (depth + 1) [] (flush cur items) xs
           else if c = CHR '' '' then scanList depth [] (flush cur items) xs
           else scanList depth (cur @ [c]) items xs))"

definition sp_readParenthesizedList :: "StreamParser \<Rightarrow> bytes list \<times> StreamParser" where
  "sp_readParenthesizedList p =
     (case scanList 0 [] [] (tl (unread p)) of
        None \<Rightarrow> ([], starve p)
      | Some (items, n) \<Rightarrow> (items, advance (n + 1) p))"

definition sp_hasResponseCode :: "StreamParser \<Rightarrow> bool \<times> StreamParser" where
  "sp_hasResponseCode p =
     (case peek p of
        (None, p1) \<Rightarrow> (False, p1)
      | (Some c, p1) \<Rightarrow> if c = CHR ''['' then (True, advance 1 p1) else (False, p1))"

definition sp_atResponseCodeEnd :: "StreamParser \<Rightarrow> bool \<times> StreamParser" where
  "sp_atResponseCodeEnd p =
     (case peek p of
        (None, p1) \<Rightarrow> (False, p1)
      | (Some c, p1) \<Rightarrow> if c = CHR '']'' then (True, advance 1 p1) else (False, p1))"

text \<open>The header of a literal after its opening brace: the size and the number of bytes
  read up to and with the CRLF; or the buffer ends first; or it is no literal.\<close>

datatype header = Header nat nat | Incomplete | Malformed

definition isDigit :: "char \<Rightarrow> bool" where
  "isDigit c = (48 \<le> (of_char c :: nat) \<and> (of_char c :: nat) \<le> 57)"

fun scanHeader :: "nat \<Rightarrow> bytes \<Rightarrow> header" where
  "scanHeader sz [] = Incomplete"
| "scanHeader sz (c # xs) =
     (if isDigit c then
        (case scanHeader (10 * sz + (of_char c - 48)) xs of
           Header n k \<Rightarrow> Header n (k + 1) | r \<Rightarrow> r)
      else if c = CHR ''}'' then
        (case xs of
           [] \<Rightarrow> Incomplete
         | d # ys \<Rightarrow>
             (if d = CR then
                (case ys of [] \<Rightarrow> Incomplete | e # zs \<Rightarrow> if e = LF then Header sz 3 else Malformed)
              else Malformed))
      else Malformed)"

definition sp_hasLiteral :: "StreamParser \<Rightarrow> bool \<times> StreamParser" where
  "sp_hasLiteral p =
     (case peek p of
        (None, p1) \<Rightarrow> (False, p1)
      | (Some c, p1) \<Rightarrow>
          (if c = CHR ''{'' then
             (case scanHeader 0 (tl (unread p1)) of
                Header n k \<Rightarrow> (True, advance (k + 1) (p1\<lparr> literalLeft := n \<rparr>))
              | Incomplete \<Rightarrow> (False, starve p1)
              | Malformed \<Rightarrow> (False, p1))
           else (False, p1)))"

definition sp_atLiteralEnd :: "StreamParser \<Rightarrow> bool \<times> StreamParser" where
  "sp_atLiteralEnd p = (literalLeft p = 0, p)"

definition sp_readLiteralPart :: "StreamParser \<Rightarrow> bytes \<times> StreamParser" where
  "sp_readLiteralPart p =
     (let n = min (literalLeft p) (length (unread p))
      in if n = 0 then ([], starve (p\<lparr> literalLeft := 0 \<rparr>))
         else (take n (unread p), advance n (p\<lparr> literalLeft := literalLeft p - n \<rparr>)))"

definition specStream :: "StreamParser StreamOps" where
  "specStream =
     \<lparr> availableDataSize = sp_availableDataSize, parse = sp_parse, saveState = sp_saveState,
       restoreState = sp_restoreState, trimBuffer = sp_trimBuffer,
       insufficientData = insufficient, atCommandEnd = sp_atCommandEnd,
       hasString = sp_hasString, readString = sp_readString, hasList = sp_hasList,
       readParenthesizedList = sp_readParenthesizedList,
       hasResponseCode = sp_hasResponseCode, atResponseCodeEnd = sp_atResponseCodeEnd,
       hasLiteral = sp_hasLiteral, atLiteralEnd = sp_atLiteralEnd,
       readLiteralPart = sp_readLiteralPart, streamData = buffer \<rparr>"

text \<open>The parser has set \<open>insufficientData\<close> or met a token that cannot be: no predicate
  holds any more. The fuel that the reader's loop needs from a parser: one turn when it
  is halted, and otherwise one turn for each unread byte and four more.\<close>

definition halted :: "StreamParser \<Rightarrow> bool" where
  "halted p = (insufficient p \<or> fault p)"

definition fuelFor :: "StreamParser \<Rightarrow> nat" where
  "fuelFor p = (if halted p then 1 else sp_availableDataSize p + 4)"

definition crlf :: bytes where
  "crlf = [CR, LF]"

subsection \<open>Example inputs\<close>

text \<open>A completion with a response code, followed by the first byte of the next
  response.\<close>

definition drainInput :: StreamParser where
  "drainInput = feed (''A2 OK [READ-WRITE] done'' @ crlf @ ''x'') newStreamParser"

definition doneMessage :: Message where
  "doneMessage =
     \<lparr> content = [String ''A2'', String ''OK'', String ''done''],
       responseCode = [String ''READ-WRITE''] \<rparr>"


text \<open>A line whose second token is a closing parenthesis: no predicate of the reader
  matches it.\<close>

definition abortInput :: StreamParser where
  "abortInput = feed (''* )'' @ crlf) newStreamParser"


text \<open>A response whose second token is the literal of the three bytes NIL.\<close>

definition nilLiteralInput :: StreamParser where
  "nilLiteralInput = feed (''* {3}'' @ crlf @ ''NIL'' @ crlf) newStreamParser"

text \<open>The greeting of the spec's first scenario, as bytes and as the message the reader
  makes of them.\<close>

definition greetingInput :: StreamParser where
  "greetingInput = feed (''* OK IMAP4rev1 Service Ready'' @ crlf) newStreamParser"

definition greetingMessage :: Message where
  "greetingMessage = response [''*'', ''OK'', ''IMAP4rev1'', ''Service'', ''Ready'']"

text \<open>A new session with a 16-bit tag counter and no logger.\<close>

definition freshSession :: "16 word SessionPrivate" where
  "freshSession = newSession 0 False"

section \<open>Properties of the state machine\<close>

lemma emit_fields [simp]:
  "state (emit e s) = state s"
  "authTag (emit e s) = authTag s"
  "selectTag (emit e s) = selectTag s"
  "closeTag (emit e s) = closeTag s"
  "currentMailBox (emit e s) = currentMailBox s"
  "upcomingMailBox (emit e s) = upcomingMailBox s"
  "currentJob (emit e s) = currentJob s"
  "queue (emit e s) = queue s"
  "logger (emit e s) = logger s"
  "greeting (emit e s) = greeting s"
  "tagCount (emit e s) = tagCount s"
  "isSocketConnected (emit e s) = isSocketConnected s"
  "effects (emit e s) = effects s @ [e]"
  by (simp_all add: emit_def)

lemma restartSocketTimer_fields [simp]:
  "state (restartSocketTimer s) = state s"
  "authTag (restartSocketTimer s) = authTag s"
  "selectTag (restartSocketTimer s) = selectTag s"
  "closeTag (restartSocketTimer s) = closeTag s"
  "currentMailBox (restartSocketTimer s) = currentMailBox s"
  "upcomingMailBox (restartSocketTimer s) = upcomingMailBox s"
  "currentJob (restartSocketTimer s) = currentJob s"
  "queue (restartSocketTimer s) = queue s"
  "logger (restartSocketTimer s) = logger s"
  "greeting (restartSocketTimer s) = greeting s"
  "tagCount (restartSocketTimer s) = tagCount s"
  "isSocketConnected (restartSocketTimer s) = isSocketConnected s"
  "effects (restartSocketTimer s) = effects s"
  by (simp_all add: restartSocketTimer_def startSocketTimer_def stopSocketTimer_def)

lemma stopSocketTimer_fields [simp]:
  "state (stopSocketTimer s) = state s"
  "authTag (stopSocketTimer s) = authTag s"
  "selectTag (stopSocketTimer s) = selectTag s"
  "closeTag (stopSocketTimer s) = closeTag s"
  "currentMailBox (stopSocketTimer s) = currentMailBox s"
  "upcomingMailBox (stopSocketTimer s) = upcomingMailBox s"
  "currentJob (stopSocketTimer s) = currentJob s"
  "queue (stopSocketTimer s) = queue s"
  "logger (stopSocketTimer s) = logger s"
  "greeting (stopSocketTimer s) = greeting s"
  "tagCount (stopSocketTimer s) = tagCount s"
  "isSocketConnected (stopSocketTimer s) = isSocketConnected s"
  "effects (stopSocketTimer s) = effects s"
  by (simp_all add: stopSocketTimer_def)

lemma setState_fields [simp]:
  "state (setState st s) = st"
  "authTag (setState st s) = authTag s"
  "selectTag (setState st s) = selectTag s"
  "closeTag (setState st s) = closeTag s"
  "currentMailBox (setState st s) = currentMailBox s"
  "upcomingMailBox (setState st s) = upcomingMailBox s"
  "currentJob (setState st s) = currentJob s"
  "queue (setState st s) = queue s"
  "greeting (setState st s) = greeting s"
  "tagCount (setState st s) = tagCount s"
  "isSocketConnected (setState st s) = isSocketConnected s"
  by (simp_all add: setState_def)

lemma setState_effects:
  "effects (setState st s) =
     (if st \<noteq> state s then effects s @ [EmitStateChanged st (state s)] else effects s)"
  by (simp add: setState_def)

lemma clearTags_fields [simp]:
  "state (clearTags t s) = state s"
  "currentMailBox (clearTags t s) = currentMailBox s"
  "upcomingMailBox (clearTags t s) = upcomingMailBox s"
  "currentJob (clearTags t s) = currentJob s"
  "queue (clearTags t s) = queue s"
  "greeting (clearTags t s) = greeting s"
  "tagCount (clearTags t s) = tagCount s"
  "effects (clearTags t s) = effects s"
  by (simp_all add: clearTags_def Let_def)

lemma clearTags_tags [simp]:
  "authTag (clearTags t s) = (if t = authTag s then [] else authTag s)"
  "selectTag (clearTags t s) = (if t = selectTag s then [] else selectTag s)"
  "closeTag (clearTags t s) = (if t = closeTag s then [] else closeTag s)"
  by (simp_all add: clearTags_def Let_def)

lemma forward_fields [simp]:
  "state (forward r s) = state s"
  "authTag (forward r s) = authTag s"
  "selectTag (forward r s) = selectTag s"
  "closeTag (forward r s) = closeTag s"
  "currentMailBox (forward r s) = currentMailBox s"
  "upcomingMailBox (forward r s) = upcomingMailBox s"
  "currentJob (forward r s) = currentJob s"
  "queue (forward r s) = queue s"
  "greeting (forward r s) = greeting s"
  "tagCount (forward r s) = tagCount s"
  by (simp_all add: forward_def split: option.splits)

lemma forward_effects:
  "effects (forward r s) =
     effects s @ [case currentJob s of Some job \<Rightarrow> JobHandleResponse job r
                  | None \<Rightarrow> Warning (Message_toString r)]"
  by (simp add: forward_def split: option.splits)

lemma greetingReceived_fields [simp]:
  "authTag (greetingReceived r c s) = authTag s"
  "selectTag (greetingReceived r c s) = selectTag s"
  "closeTag (greetingReceived r c s) = closeTag s"
  "currentMailBox (greetingReceived r c s) = currentMailBox s"
  "upcomingMailBox (greetingReceived r c s) = upcomingMailBox s"
  "currentJob (greetingReceived r c s) = currentJob s"
  "queue (greetingReceived r c s) = queue s"
  "tagCount (greetingReceived r c s) = tagCount s"
  by (simp_all add: greetingReceived_def Let_def closeSocket_def)

lemma transition_fields [simp]:
  "authTag (transition t c s) = authTag s"
  "selectTag (transition t c s) = selectTag s"
  "closeTag (transition t c s) = closeTag s"
  "upcomingMailBox (transition t c s) = upcomingMailBox s"
  "currentJob (transition t c s) = currentJob s"
  "queue (transition t c s) = queue s"
  "greeting (transition t c s) = greeting s"
  "tagCount (transition t c s) = tagCount s"
  by (cases "state s"; simp add: transition_def)+

lemma transition_state:
  "state (transition t c s) =
     (case state s of
        Disconnected \<Rightarrow> Disconnected
      | NotAuthenticated \<Rightarrow> if c = ''OK'' \<and> t = authTag s then Authenticated else NotAuthenticated
      | Authenticated \<Rightarrow> if c = ''OK'' \<and> t = selectTag s then Selected else Authenticated
      | Selected \<Rightarrow> if (c = ''OK'' \<and> t = closeTag s) \<or> (c \<noteq> ''OK'' \<and> t = selectTag s)
                    then Authenticated else Selected)"
  by (cases "state s"; simp add: transition_def)

lemma transition_not_Disconnected:
  "state s \<noteq> Disconnected \<Longrightarrow> state (transition t c s) \<noteq> Disconnected"
  by (cases "state s"; simp add: transition_state)

lemma transition_untracked:
  "t \<noteq> authTag s \<Longrightarrow> t \<noteq> selectTag s \<Longrightarrow> t \<noteq> closeTag s \<Longrightarrow> transition t c s = s"
  by (cases "state s"; simp add: transition_def)

lemma transition_unmatched:
  "\<not> spec_transitionRule s r \<Longrightarrow> transition (responseTag r) (responseStatus r) s = s"
  by (cases "state s"; auto simp add: transition_def spec_transitionRule_def)

lemma spec_transitionRule_emit [simp]:
  "spec_transitionRule (emit e s) r = spec_transitionRule s r"
  by (simp add: spec_transitionRule_def)

lemma transition_unmatched_emit:
  "\<not> spec_transitionRule s r \<Longrightarrow>
   transition (responseTag r) (responseStatus r) (emit e s) = emit e s"
  using transition_unmatched [of "emit e s" r] by simp

lemma logged_fields [simp]:
  "state (if c then emit e s else s) = state s"
  "authTag (if c then emit e s else s) = authTag s"
  "selectTag (if c then emit e s else s) = selectTag s"
  "closeTag (if c then emit e s else s) = closeTag s"
  "currentMailBox (if c then emit e s else s) = currentMailBox s"
  "upcomingMailBox (if c then emit e s else s) = upcomingMailBox s"
  "currentJob (if c then emit e s else s) = currentJob s"
  "tagCount (if c then emit e s else s) = tagCount s"
  by simp_all

lemma selectedSession_fields:
  "state selectedSession = Selected" "selectTag selectedSession = []"
  "closeTag selectedSession = []" "authTag selectedSession = []"
  "currentMailBox selectedSession = ''INBOX''" "currentJob selectedSession = Some 1"
  "logger selectedSession = False" "effects selectedSession = []"
  "upcomingMailBox selectedSession = []"
  by (simp_all add: selectedSession_def newSession_def startSocketTimer_def)

lemma response_tag_status [simp]:
  "responseTag (response (t # ws)) = t"
  "responseStatus (response (t # c # ws)) = c"
  by (simp_all add: response_def responseTag_def responseStatus_def)

text \<open>
  C4, as the code has it. In state \<open>Selected\<close>, a response with status OK and the tag
  of \<open>closeTag\<close>, or with a status other than OK and other than BYE and the tag of
  \<open>selectTag\<close>, moves the session to \<open>Authenticated\<close> and empties the current mailbox;
  a response with status OK and the tag of \<open>selectTag\<close>, when that tag is not also
  \<open>closeTag\<close>, keeps the session \<open>Selected\<close> and makes the upcoming mailbox the current
  one.
\<close>

theorem C4_selected_transitions:
  assumes "state s = Selected"
  shows "((responseStatus r = ''OK'' \<and> responseTag r = closeTag s) \<or>
          (responseStatus r \<noteq> ''OK'' \<and> responseStatus r \<noteq> ''BYE'' \<and>
           responseTag r = selectTag s)
         \<longrightarrow> state (responseReceived r s) = Authenticated \<and>
             selectedMailBox (responseReceived r s) = [])
       \<and> (responseStatus r = ''OK'' \<and> responseTag r = selectTag s \<and> responseTag r \<noteq> closeTag s
         \<longrightarrow> state (responseReceived r s) = Selected \<and>
             selectedMailBox (responseReceived r s) = upcomingMailBox s)"
  using assms
  by (simp add: responseReceived_def Let_def selectedMailBox_def transition_def)

text \<open>
  C4 at concrete inputs: the completion of CLOSE, a failed SELECT, and a re-select of
  ``Sent'' while INBOX is selected.
\<close>

theorem C4_selected_transitions_witness:
  "state (responseReceived (response [''A000003'', ''OK'', ''CLOSE''])
     (selectedSession\<lparr> closeTag := ''A000003'' \<rparr>)) = Authenticated \<and>
   selectedMailBox (responseReceived (response [''A000003'', ''OK'', ''CLOSE''])
     (selectedSession\<lparr> closeTag := ''A000003'' \<rparr>)) = [] \<and>
   state (responseReceived (response [''A000004'', ''NO'', ''SELECT''])
     (selectedSession\<lparr> selectTag := ''A000004'' \<rparr>)) = Authenticated \<and>
   selectedMailBox (responseReceived (response [''A000004'', ''NO'', ''SELECT''])
     (selectedSession\<lparr> selectTag := ''A000004'' \<rparr>)) = [] \<and>
   state (responseReceived (response [''A000004'', ''OK'', ''SELECT''])
     (selectedSession\<lparr> selectTag := ''A000004'', upcomingMailBox := ''Sent'' \<rparr>)) = Selected \<and>
   selectedMailBox (responseReceived (response [''A000004'', ''OK'', ''SELECT''])
     (selectedSession\<lparr> selectTag := ''A000004'', upcomingMailBox := ''Sent'' \<rparr>)) = ''Sent''"
  using
    C4_selected_transitions [of "selectedSession\<lparr> closeTag := ''A000003'' \<rparr>"
      "response [''A000003'', ''OK'', ''CLOSE'']"]
    C4_selected_transitions [of "selectedSession\<lparr> selectTag := ''A000004'' \<rparr>"
      "response [''A000004'', ''NO'', ''SELECT'']"]
    C4_selected_transitions [of
      "selectedSession\<lparr> selectTag := ''A000004'', upcomingMailBox := ''Sent'' \<rparr>"
      "response [''A000004'', ''OK'', ''SELECT'']"]
  by (simp add: selectedSession_fields)

text \<open>
  C4 as the claim states it fails twice. A response with status BYE and the tag of
  \<open>selectTag\<close> has a status other than OK, and leaves the session \<open>Selected\<close> on INBOX:
  \<open>responseReceived\<close> returns on BYE before it looks at the state. And with no command
  pending (both tracked tags empty), a response with an empty tag and status OK has the
  tag of \<open>selectTag\<close>, and moves the session to \<open>Authenticated\<close>: the test of \<open>closeTag\<close>
  comes first.
\<close>

theorem C4_selected_transitions_counterexample:
  "state (selectedSession\<lparr> selectTag := ''A000002'' \<rparr>) = Selected \<and>
   responseStatus (response [''A000002'', ''BYE'']) \<noteq> ''OK'' \<and>
   responseTag (response [''A000002'', ''BYE'']) =
     selectTag (selectedSession\<lparr> selectTag := ''A000002'' \<rparr>) \<and>
   state (responseReceived (response [''A000002'', ''BYE''])
     (selectedSession\<lparr> selectTag := ''A000002'' \<rparr>)) = Selected \<and>
   selectedMailBox (responseReceived (response [''A000002'', ''BYE''])
     (selectedSession\<lparr> selectTag := ''A000002'' \<rparr>)) = ''INBOX'' \<and>
   state selectedSession = Selected \<and>
   responseStatus (response [[], ''OK'']) = ''OK'' \<and>
   responseTag (response [[], ''OK'']) = selectTag selectedSession \<and>
   state (responseReceived (response [[], ''OK'']) selectedSession) = Authenticated"
  by (simp add: responseReceived_def Let_def selectedMailBox_def selectedSession_fields
      transition_def)

lemma responseReceived_BYE:
  "responseStatus r = ''BYE'' \<Longrightarrow>
   responseReceived r s =
     s\<lparr> effects := effects s @ loggedReceived s r @
          [Debug (Message_toString (if length (content r) \<ge> 2 then simplified r else r))] \<rparr>"
  by (simp add: responseReceived_def Let_def loggedReceived_def emit_def)

lemma responseReceived_state_unmatched:
  "responseStatus r \<noteq> ''BYE'' \<Longrightarrow> \<not> spec_transitionRule s r \<Longrightarrow>
   state (responseReceived r s) = state s"
  by (cases "state s = Disconnected")
     (simp_all add: responseReceived_def Let_def transition_unmatched transition_unmatched_emit,
      simp add: spec_transitionRule_def)

lemma responseReceived_effects_unmatched:
  "responseStatus r \<noteq> ''BYE'' \<Longrightarrow> \<not> spec_transitionRule s r \<Longrightarrow>
   effects (responseReceived r s) =
     effects s @ loggedReceived s r @
       [case currentJob s of Some job \<Rightarrow> JobHandleResponse job r
        | None \<Rightarrow> Warning (Message_toString r)]"
  by (cases "state s = Disconnected")
     (simp_all add: responseReceived_def Let_def transition_unmatched transition_unmatched_emit
        loggedReceived_def forward_effects, simp add: spec_transitionRule_def)

lemma response_simps [simp]:
  "simplified (response (a # b # ws)) = response ws"
  "length (content (response ws)) = length ws"
  "Message_toString (response ws) = concat (map (\<lambda>w. w @ '' '') ws)"
  by (simp_all add: response_def simplified_def Message_toString_def comp_def)

lemma loggedReceived_selectedSession [simp]:
  "loggedReceived (selectedSession\<lparr> currentJob := j \<rparr>) r = []"
  "loggedReceived selectedSession r = []"
  by (simp_all add: loggedReceived_def selectedSession_fields)

lemma not_rule_selectedSession:
  "t \<noteq> [] \<Longrightarrow> \<not> spec_transitionRule (selectedSession\<lparr> currentJob := j \<rparr>) (response (t # c # ws))"
  "t \<noteq> [] \<Longrightarrow> \<not> spec_transitionRule selectedSession (response (t # c # ws))"
  by (simp_all add: spec_transitionRule_def selectedSession_fields)

text \<open>
  C5, as the code has it. A response with status BYE, tagged or untagged, in any state:
  the session is left as it was but for what is logged (the logger's line and the debug
  line), so there is no state change and nothing reaches a job. Every other response
  that matches no row of the transition table leaves the state as it was and is handed,
  unchanged, to the current job when there is one; when there is none, a warning is
  logged and nothing is handed on.
\<close>

theorem C5_bye_ignored_rest_forwarded:
  "(responseStatus r = ''BYE'' \<longrightarrow>
      responseReceived r s =
        s\<lparr> effects := effects s @ loggedReceived s r @
          [Debug (Message_toString (if length (content r) \<ge> 2 then simplified r else r))] \<rparr>)
   \<and> (responseStatus r \<noteq> ''BYE'' \<and> \<not> spec_transitionRule s r \<longrightarrow>
        state (responseReceived r s) = state s \<and>
        effects (responseReceived r s) =
          effects s @ loggedReceived s r @
            [case currentJob s of Some job \<Rightarrow> JobHandleResponse job r
             | None \<Rightarrow> Warning (Message_toString r)])"
  using responseReceived_BYE [of r s] responseReceived_state_unmatched [of r s]
    responseReceived_effects_unmatched [of r s]
  by blast

text \<open>
  C5 at concrete inputs: an untagged BYE, and an untagged \<open>5 EXISTS\<close> with and
  without a current job.
\<close>

theorem C5_bye_ignored_rest_forwarded_witness:
  "state (responseReceived (response [''*'', ''BYE'', ''bye'']) selectedSession) = Selected \<and>
   effects (responseReceived (response [''*'', ''BYE'', ''bye'']) selectedSession) = [Debug ''bye ''] \<and>
   effects (responseReceived (response [''*'', ''5'', ''EXISTS'']) selectedSession) =
     [JobHandleResponse 1 (response [''*'', ''5'', ''EXISTS''])] \<and>
   effects (responseReceived (response [''*'', ''5'', ''EXISTS''])
      (selectedSession\<lparr> currentJob := None \<rparr>)) = [Warning ''* 5 EXISTS '']"
  using C5_bye_ignored_rest_forwarded [of "response [''*'', ''BYE'', ''bye'']" selectedSession]
    C5_bye_ignored_rest_forwarded [of "response [''*'', ''5'', ''EXISTS'']" selectedSession]
    C5_bye_ignored_rest_forwarded [of "response [''*'', ''5'', ''EXISTS'']" "selectedSession\<lparr> currentJob := None \<rparr>"]
  by (simp add: not_rule_selectedSession selectedSession_fields)

text \<open>
  C5 as the claim states it fails for a BYE that carries a tag: it is a response other
  than an untagged BYE, it matches no row of the table, a job is current, and still the
  job is handed nothing: \<open>responseReceived\<close> returns on the status BYE whatever the tag.
\<close>

theorem C5_bye_ignored_rest_forwarded_counterexample:
  "responseTag (response [''A000005'', ''BYE'']) \<noteq> ''*'' \<and>
   \<not> spec_transitionRule selectedSession (response [''A000005'', ''BYE'']) \<and>
   currentJob selectedSession = Some 1 \<and>
   effects (responseReceived (response [''A000005'', ''BYE'']) selectedSession) = [Debug []]"
  using responseReceived_BYE [of "response [''A000005'', ''BYE'']" selectedSession]
  by (simp add: not_rule_selectedSession selectedSession_fields)


section \<open>Properties of the tracked tags\<close>

lemma sendData_fields [simp]:
  "state (sendData p s) = state s"
  "authTag (sendData p s) = authTag s"
  "selectTag (sendData p s) = selectTag s"
  "closeTag (sendData p s) = closeTag s"
  "currentMailBox (sendData p s) = currentMailBox s"
  "upcomingMailBox (sendData p s) = upcomingMailBox s"
  "currentJob (sendData p s) = currentJob s"
  "tagCount (sendData p s) = tagCount s"
  by (simp_all add: sendData_def writeDataQueue_def Let_def)

lemma sendCommand_tag: "fst (sendCommand dec c a s) = tagOf (unat (tagCount s + 1))"
  by (simp add: sendCommand_def Let_def)

lemma sendCommand_fields [simp]:
  "state (snd (sendCommand dec c a s)) = state s"
  "tagCount (snd (sendCommand dec c a s)) = tagCount s + 1"
  "currentMailBox (snd (sendCommand dec c a s)) = currentMailBox s"
  "currentJob (snd (sendCommand dec c a s)) = currentJob s"
  by (simp_all add: sendCommand_def Let_def)

lemma sendCommand_tags:
  "authTag (snd (sendCommand dec c a s)) =
     (if c = ''LOGIN'' \<or> c = ''AUTHENTICATE'' then fst (sendCommand dec c a s) else authTag s)"
  "selectTag (snd (sendCommand dec c a s)) =
     (if c = ''SELECT'' \<or> c = ''EXAMINE'' then fst (sendCommand dec c a s) else selectTag s)"
  "closeTag (snd (sendCommand dec c a s)) =
     (if c = ''CLOSE'' then fst (sendCommand dec c a s) else closeTag s)"
  by (simp_all add: sendCommand_def Let_def)

lemma sendCommand_upcomingMailBox:
  "upcomingMailBox (snd (sendCommand dec c a s)) =
     (if c = ''SELECT'' \<or> c = ''EXAMINE'' then dec (mailBoxArgument a) else upcomingMailBox s)"
  by (simp add: sendCommand_def Let_def)

lemma sendCommand_untracked:
  "untracked t s \<Longrightarrow> fst (sendCommand dec c a s) \<noteq> t \<Longrightarrow>
   untracked t (snd (sendCommand dec c a s))"
  by (auto simp: untracked_def sendCommand_tags)

lemma responseReceived_not_Disconnected:
  "state s \<noteq> Disconnected \<Longrightarrow> state (responseReceived r s) \<noteq> Disconnected"
  by (simp add: responseReceived_def Let_def transition_not_Disconnected)

lemma responseReceived_clears:
  "state s \<noteq> Disconnected \<Longrightarrow> responseStatus r \<noteq> ''BYE'' \<Longrightarrow>
   authTag (responseReceived r s) = (if responseTag r = authTag s then [] else authTag s) \<and>
   selectTag (responseReceived r s) = (if responseTag r = selectTag s then [] else selectTag s) \<and>
   closeTag (responseReceived r s) = (if responseTag r = closeTag s then [] else closeTag s)"
  by (simp add: responseReceived_def Let_def)

lemma responseReceived_tags_kept_or_cleared:
  "authTag (responseReceived r s) \<in> {authTag s, []} \<and>
   selectTag (responseReceived r s) \<in> {selectTag s, []} \<and>
   closeTag (responseReceived r s) \<in> {closeTag s, []}"
  by (simp add: responseReceived_def Let_def)

lemma responseReceived_untracked:
  assumes "t \<noteq> []" "untracked t s"
  shows "untracked t (responseReceived r s)"
  using assms responseReceived_tags_kept_or_cleared [of r s]
  unfolding untracked_def by (metis insert_iff singletonD)

lemma untracked_no_transition:
  "state s \<noteq> Disconnected \<Longrightarrow> untracked (responseTag r) s \<Longrightarrow>
   state (responseReceived r s) = state s"
  by (simp add: responseReceived_def Let_def untracked_def transition_untracked)

lemma responseReceived_tagCount [simp]: "tagCount (responseReceived r s) = tagCount s"
  by (simp add: responseReceived_def Let_def)

lemma run_untracked:
  "run dec es s = (tags, s2) \<Longrightarrow> t \<noteq> [] \<Longrightarrow> t \<notin> set tags \<Longrightarrow> untracked t s \<Longrightarrow>
   untracked t s2"
proof (induction dec es s arbitrary: tags s2 rule: run.induct)
  case (1 dec s)
  then show ?case by simp
next
  case (2 dec r es s)
  then show ?case by (simp add: responseReceived_untracked)
next
  case (3 dec c a es s)
  obtain tag s1 where sc: "sendCommand dec c a s = (tag, s1)" by (cases "sendCommand dec c a s")
  obtain tags1 where r1: "run dec es s1 = (tags1, s2)" and tg: "tags = tag # tags1"
    using "3.prems"(1) sc by (auto split: prod.splits)
  have "untracked t s1"
    using sendCommand_untracked [of t s dec c a] "3.prems" sc tg by auto
  then show ?case
    using "3.IH" [OF sc [symmetric] r1] "3.prems" tg by simp
qed

lemma run_not_Disconnected:
  "run dec es s = (tags, s2) \<Longrightarrow> state s \<noteq> Disconnected \<Longrightarrow> state s2 \<noteq> Disconnected"
proof (induction dec es s arbitrary: tags s2 rule: run.induct)
  case (1 dec s)
  then show ?case by simp
next
  case (2 dec r es s)
  then show ?case by (simp add: responseReceived_not_Disconnected)
next
  case (3 dec c a es s)
  obtain tag s1 where sc: "sendCommand dec c a s = (tag, s1)" by (cases "sendCommand dec c a s")
  obtain tags1 where r1: "run dec es s1 = (tags1, s2)"
    using "3.prems"(1) sc by (auto split: prod.splits)
  have "state s1 \<noteq> Disconnected"
    using sendCommand_fields(1) [of dec c a s] sc "3.prems" by simp
  then show ?case
    using "3.IH" [OF sc [symmetric] r1] by simp
qed

lemma cleared_then_untracked:
  assumes "state s \<noteq> Disconnected" "responseStatus r \<noteq> ''BYE''" "responseTag r \<noteq> []"
  shows "untracked (responseTag r) (responseReceived r s)"
  using responseReceived_clears [OF assms(1,2)] assms(3) by (auto simp: untracked_def)

text \<open>
  C9, as the code has it. In every state other than \<open>Disconnected\<close>, a response whose
  status is not BYE clears each tracked tag that its tag equals, whatever its status.
  When that tag is not empty, no tracked tag holds it any more, and as long as no later
  \<open>sendCommand\<close> allocates the same tag again, a later response with that tag leaves
  the state as it is.
\<close>

theorem C9_tracked_tag_cleared:
  assumes "state s \<noteq> Disconnected" and "responseStatus r \<noteq> ''BYE''"
  shows "(responseTag r = authTag s \<longrightarrow> authTag (responseReceived r s) = []) \<and>
         (responseTag r = selectTag s \<longrightarrow> selectTag (responseReceived r s) = []) \<and>
         (responseTag r = closeTag s \<longrightarrow> closeTag (responseReceived r s) = []) \<and>
         (responseTag r \<noteq> [] \<and> run dec es (responseReceived r s) = (tags, s2) \<and>
          responseTag r \<notin> set tags \<and> responseTag r2 = responseTag r
          \<longrightarrow> state (responseReceived r2 s2) = state s2)"
proof -
  have clr: "(responseTag r = authTag s \<longrightarrow> authTag (responseReceived r s) = []) \<and>
         (responseTag r = selectTag s \<longrightarrow> selectTag (responseReceived r s) = []) \<and>
         (responseTag r = closeTag s \<longrightarrow> closeTag (responseReceived r s) = [])"
    using responseReceived_clears [OF assms] by simp
  have later: "state (responseReceived r2 s2) = state s2"
    if h: "responseTag r \<noteq> []" "run dec es (responseReceived r s) = (tags, s2)"
      "responseTag r \<notin> set tags" "responseTag r2 = responseTag r"
  proof -
    have u: "untracked (responseTag r) (responseReceived r s)"
      using cleared_then_untracked [OF assms h(1)] .
    have u2: "untracked (responseTag r2) s2"
      using run_untracked [OF h(2) h(1) h(3) u] h(4) by simp
    have nd: "state s2 \<noteq> Disconnected"
      using run_not_Disconnected [OF h(2)] responseReceived_not_Disconnected [OF assms(1)]
      by simp
    show ?thesis using untracked_no_transition [OF nd u2] .
  qed
  show ?thesis using clr later by blast
qed


lemma notAuthSession_fields:
  "state notAuthSession = NotAuthenticated" "selectTag notAuthSession = []"
  "closeTag notAuthSession = []" "authTag notAuthSession = []"
  "currentMailBox notAuthSession = []" "currentJob notAuthSession = Some 1"
  "logger notAuthSession = False" "effects notAuthSession = []"
  "upcomingMailBox notAuthSession = []" "tagCount notAuthSession = 0"
  by (simp_all add: notAuthSession_def newSession_def startSocketTimer_def)

lemma run_fst_snd:
  "fst (run dec (Response r # es) s) = fst (run dec es (responseReceived r s))"
  "snd (run dec (Response r # es) s) = snd (run dec es (responseReceived r s))"
  "fst (run dec (Command c a # es) s) =
     fst (sendCommand dec c a s) # fst (run dec es (snd (sendCommand dec c a s)))"
  "snd (run dec (Command c a # es) s) = snd (run dec es (snd (sendCommand dec c a s)))"
  "fst (run dec [] s) = []"
  "snd (run dec [] s) = s"
  by (simp_all add: split_beta)

lemma tagOf_examples: "tagOf 1 = ''A000001''" "tagOf 2 = ''A000002''"
  by (simp_all add: tagOf_def rightJustified_def number.simps digit_char_def eval_nat_numeral)

text \<open>
  C9 at a concrete input: a failed LOGIN with tag A000001, then an untagged response
  and a NOOP (tag A000002), then a stale completion with tag A000001.
\<close>

theorem C9_tracked_tag_cleared_witness:
  "authTag (responseReceived (response [''A000001'', ''NO'', ''LOGIN''])
      (notAuthSession\<lparr> authTag := ''A000001'', tagCount := 1 \<rparr>)) = [] \<and>
   fst (run (\<lambda>b. b) [Response (response [''*'', ''OK'']), Command ''NOOP'' []]
      (responseReceived (response [''A000001'', ''NO'', ''LOGIN''])
         (notAuthSession\<lparr> authTag := ''A000001'', tagCount := 1 \<rparr>))) = [''A000002''] \<and>
   state (responseReceived (response [''A000001'', ''OK''])
     (snd (run (\<lambda>b. b) [Response (response [''*'', ''OK'']), Command ''NOOP'' []]
       (responseReceived (response [''A000001'', ''NO'', ''LOGIN''])
         (notAuthSession\<lparr> authTag := ''A000001'', tagCount := 1 \<rparr>))))) = NotAuthenticated"
proof -
  let ?s = "notAuthSession\<lparr> authTag := ''A000001'', tagCount := 1 \<rparr>"
  let ?r = "response [''A000001'', ''NO'', ''LOGIN'']"
  let ?es = "[Response (response [''*'', ''OK'']), Command ''NOOP'' []]"
  let ?run = "run (\<lambda>b. b) ?es (responseReceived ?r ?s)"
  have tags: "fst ?run = [''A000002'']"
    by (simp add: run_fst_snd sendCommand_tag notAuthSession_fields tagOf_examples
        del: run.simps)
  have st: "state (snd ?run) = NotAuthenticated"
    by (simp add: run_fst_snd responseReceived_def Let_def transition_state
        notAuthSession_fields del: run.simps)
  have "state ?s \<noteq> Disconnected" "responseStatus ?r \<noteq> ''BYE''"
    by (simp_all add: notAuthSession_fields)
  from C9_tracked_tag_cleared [OF this, of "\<lambda>b. b" ?es "fst ?run" "snd ?run" "response [''A000001'', ''OK'']"]
  show ?thesis using tags st by (simp add: notAuthSession_fields)
qed

text \<open>
  C9 as the claim states it fails for the empty tag: with no LOGIN pending, \<open>authTag\<close>
  is empty, a response with an empty first part has the tag of \<open>authTag\<close>, and after it
  a response with the same empty tag and status OK moves the session to
  \<open>Authenticated\<close>.
\<close>

theorem C9_tracked_tag_cleared_counterexample:
  "state notAuthSession \<noteq> Disconnected \<and>
   responseStatus (response [[], ''NO'']) \<noteq> ''BYE'' \<and>
   responseTag (response [[], ''NO'']) = authTag notAuthSession \<and>
   authTag (responseReceived (response [[], ''NO'']) notAuthSession) = [] \<and>
   state (responseReceived (response [[], ''NO'']) notAuthSession) = NotAuthenticated \<and>
   responseTag (response [[], ''OK'']) = responseTag (response [[], ''NO'']) \<and>
   state (responseReceived (response [[], ''OK''])
      (responseReceived (response [[], ''NO'']) notAuthSession)) = Authenticated"
  by (simp add: responseReceived_def Let_def transition_state notAuthSession_fields)

section \<open>Properties of the tag allocator\<close>

lemma digit_value_digit_char: "d < 10 \<Longrightarrow> digit_value (digit_char d) = d"
proof -
  assume "d < 10"
  then have "d \<in> {0, 1, 2, 3, 4, 5, 6, 7, 8, 9}" by auto
  then show ?thesis
    by (auto simp: digit_value_def digit_char_def eval_nat_numeral)
qed

lemma decimal_snoc: "decimal (xs @ [c]) = 10 * decimal xs + digit_value c"
  by (simp add: decimal_def)

lemma decimal_number: "decimal (number n) = n"
proof (induction n rule: number.induct)
  case (1 n)
  show ?case
  proof (cases "n < 10")
    case True
    then show ?thesis
      using number.simps [of n] by (simp add: decimal_def digit_value_digit_char)
  next
    case False
    then show ?thesis
      using number.simps [of n] "1.IH" by (simp add: decimal_snoc digit_value_digit_char)
  qed
qed

lemma foldl_zeros:
  "foldl (\<lambda>a c. 10 * a + digit_value c) 0 (replicate k (CHR ''0'')) = 0"
  by (induction k) (simp_all add: digit_value_def)

lemma decimal_zeros: "decimal (replicate k (CHR ''0'') @ xs) = decimal xs"
  by (simp add: decimal_def foldl_zeros)

lemma tagNumber_tagOf: "tagNumber (tagOf n) = n"
  by (simp add: tagNumber_def tagOf_def rightJustified_def decimal_zeros decimal_number)

lemma inj_tagOf: "inj tagOf"
  by (rule inj_on_inverseI [where g = tagNumber]) (simp add: tagNumber_tagOf)

lemma upt_shift: "[Suc 0..<Suc (Suc n)] = Suc 0 # map Suc [Suc 0..<Suc n]"
  by (simp add: upt_conv_Cons map_Suc_upt del: upt_Suc)

lemma run_tags:
  "fst (run dec es s) =
     map (\<lambda>k. tagOf (unat (tagCount s + of_nat k))) [Suc 0..<Suc (ncommands es)]"
proof (induction es arbitrary: s)
  case Nil
  then show ?case by simp
next
  case (Cons e es)
  show ?case
  proof (cases e)
    case (Response r)
    then show ?thesis
      using Cons [of "responseReceived r s"] by (simp add: run_fst_snd del: run.simps)
  next
    case (Command c a)
    have "fst (run dec (e # es) s) =
        tagOf (unat (tagCount s + 1)) #
        map (\<lambda>k. tagOf (unat (tagCount s + 1 + of_nat k))) [Suc 0..<Suc (ncommands es)]"
      unfolding Command run_fst_snd sendCommand_tag
      using Cons [of "snd (sendCommand dec c a s)"] by simp
    also have "\<dots> =
        map (\<lambda>k. tagOf (unat (tagCount s + of_nat k))) (Suc 0 # map Suc [Suc 0..<Suc (ncommands es)])"
      by (simp add: comp_def ac_simps del: upt_Suc)
    finally show ?thesis
      unfolding Command ncommands.simps upt_shift .
  qed
qed

lemma run_length: "length (fst (run dec es s)) = ncommands es"
  by (simp add: run_tags)

text \<open>
  C6, as the code has it. In a session whose counter starts at zero, as long as fewer
  tags were allocated than the counter has values, the n-th \<open>sendCommand\<close> allocates
  the letter A followed by the decimal digits of n, padded with zeros to six digits;
  these tags are pairwise distinct and their numbers strictly increase, whatever
  responses arrive in between.
\<close>

theorem C6_tags_increasing_distinct:
  fixes s :: "('w::len) word SessionPrivate"
  assumes "tagCount s = 0" and "run dec es s = (tags, s2)"
    and "length tags < 2 ^ LENGTH('w)"
  shows "tags = map tagOf [Suc 0..<Suc (length tags)] \<and> distinct tags \<and>
         sorted_wrt (\<lambda>a b. tagNumber a < tagNumber b) tags"
proof -
  have len: "length tags = ncommands es"
    using run_length [of dec es s] assms(2) by simp
  have un: "unat (of_nat k :: 'w word) = k" if "k \<in> set [Suc 0..<Suc (ncommands es)]" for k
  proof -
    have "k < 2 ^ LENGTH('w)" using that assms(3) len by (auto simp del: upt_Suc)
    then show ?thesis by (simp add: unat_of_nat)
  qed
  have "tags = map (\<lambda>k. tagOf (unat (0 + of_nat k :: 'w word))) [Suc 0..<Suc (ncommands es)]"
    using run_tags [of dec es s] assms(1,2) by simp
  also have "\<dots> = map tagOf [Suc 0..<Suc (ncommands es)]"
    using un by (simp del: upt_Suc)
  finally have eq: "tags = map tagOf [Suc 0..<Suc (length tags)]" using len by simp
  have d: "distinct (map tagOf [Suc 0..<Suc (length tags)])"
    by (simp add: distinct_map inj_on_subset [OF inj_tagOf] del: upt_Suc)
  have s: "sorted_wrt (\<lambda>a b. tagNumber a < tagNumber b) (map tagOf [Suc 0..<Suc (length tags)])"
    by (simp add: sorted_wrt_map tagNumber_tagOf del: upt_Suc)
  show ?thesis using eq d s by metis
qed


lemma ncommands_replicate [simp]: "ncommands (replicate n (Command c a)) = n"
  by (induction n) simp_all

lemma tagOf_Suc_0: "tagOf (Suc 0) = ''A000001''"
  using tagOf_examples(1) by simp

lemma tagOf_Suc_Suc_0: "tagOf (Suc (Suc 0)) = ''A000002''"
  using tagOf_examples(2) by (simp add: numeral_2_eq_2)

text \<open>
  C6 at a concrete input: a LOGIN, an untagged response and a NOOP in a fresh session
  with a 16-bit counter.
\<close>

theorem C6_tags_increasing_distinct_witness:
  "fst (run (\<lambda>b. b)
      [Command ''LOGIN'' ''u p'', Response (response [''*'', ''OK'']), Command ''NOOP'' []]
      notAuthSession) = [''A000001'', ''A000002''] \<and>
   distinct (fst (run (\<lambda>b. b)
      [Command ''LOGIN'' ''u p'', Response (response [''*'', ''OK'']), Command ''NOOP'' []]
      notAuthSession)) \<and>
   tagNumber ''A000001'' < tagNumber ''A000002''"
proof -
  define es where
    "es = [Command ''LOGIN'' ''u p'', Response (response [''*'', ''OK'']), Command ''NOOP'' []]"
  define tags where "tags = fst (run (\<lambda>b. b) es notAuthSession)"
  define s2 where "s2 = snd (run (\<lambda>b. b) es notAuthSession)"
  have len: "length tags = Suc (Suc 0)"
    unfolding tags_def run_length by (simp add: es_def)
  have "tagCount notAuthSession = 0" by (simp add: notAuthSession_fields)
  moreover have "run (\<lambda>b. b) es notAuthSession = (tags, s2)"
    unfolding tags_def s2_def by simp
  moreover have "length tags < 2 ^ LENGTH(16)" unfolding len by simp
  ultimately have c6: "tags = map tagOf [Suc 0..<Suc (length tags)] \<and>
      distinct tags \<and> sorted_wrt (\<lambda>a b. tagNumber a < tagNumber b) tags"
    by (rule C6_tags_increasing_distinct)
  have "tags = map tagOf [Suc 0..<Suc (length tags)]" using c6 by blast
  then have eq: "tags = [''A000001'', ''A000002'']"
    unfolding len by (simp add: tagOf_Suc_0 tagOf_Suc_Suc_0)
  have d: "distinct tags" using c6 by blast
  have "sorted_wrt (\<lambda>a b. tagNumber a < tagNumber b) tags" using c6 by blast
  then have lt: "tagNumber ''A000001'' < tagNumber ''A000002''" unfolding eq by simp
  have "tags = [''A000001'', ''A000002''] \<and> distinct tags \<and>
      tagNumber ''A000001'' < tagNumber ''A000002''"
    using eq d lt by blast
  then show ?thesis unfolding tags_def es_def .
qed

lemma run_nth:
  "i < ncommands es \<Longrightarrow>
   fst (run dec es s) ! i = tagOf (unat (tagCount s + of_nat (Suc i)))"
  unfolding run_tags by (simp del: upt_Suc)

lemma wrapped_16: "unat (0 + of_nat (Suc 65536) :: 16 word) = Suc 0"
  by simp

text \<open>
  C6 as the claim states it fails once the counter has wrapped around: with a 16-bit
  counter, the 65537th \<open>sendCommand\<close> of a session allocates A000001 again, the tag of
  the first. (\<open>tag_reused_after_wrap\<close> below: the same happens at every width.)
\<close>

theorem C6_tags_increasing_distinct_counterexample:
  "tagCount notAuthSession = 0 \<and>
   fst (run (\<lambda>b. b) (replicate 65537 (Command ''NOOP'' [])) notAuthSession) ! 0 = ''A000001'' \<and>
   fst (run (\<lambda>b. b) (replicate 65537 (Command ''NOOP'' [])) notAuthSession) ! 65536 = ''A000001'' \<and>
   \<not> distinct (fst (run (\<lambda>b. b) (replicate 65537 (Command ''NOOP'' [])) notAuthSession))"
proof -
  define es where "es = replicate 65537 (Command ''NOOP'' [])"
  define tags where "tags = fst (run (\<lambda>b. b) es notAuthSession)"
  have n: "ncommands es = 65537" unfolding es_def by (rule ncommands_replicate)
  have len: "length tags = 65537" unfolding tags_def run_length n ..
  have c0: "tagCount notAuthSession = 0" by (simp add: notAuthSession_fields)
  have "(0::nat) < ncommands es" unfolding n by simp
  from run_nth [OF this, of "\<lambda>b. b" notAuthSession]
  have a: "tags ! 0 = ''A000001''"
    unfolding tags_def c0 by (simp add: tagOf_Suc_0)
  have "(65536::nat) < ncommands es" unfolding n by simp
  from run_nth [OF this, of "\<lambda>b. b" notAuthSession]
  have b: "tags ! 65536 = ''A000001''"
    unfolding tags_def c0 wrapped_16 tagOf_Suc_0 .
  have "\<not> distinct tags"
  proof
    assume "distinct tags"
    moreover have "(0::nat) < length tags" "(65536::nat) < length tags" "(0::nat) \<noteq> 65536"
      unfolding len by simp_all
    ultimately have "tags ! 0 \<noteq> tags ! 65536" by (simp add: nth_eq_iff_index_eq)
    then show False unfolding a b by simp
  qed
  then have "tagCount notAuthSession = 0 \<and> tags ! 0 = ''A000001'' \<and>
      tags ! 65536 = ''A000001'' \<and> \<not> distinct tags"
    using a b c0 by blast
  then show ?thesis unfolding tags_def es_def .
qed


lemma tag_reused_after_wrap:
  fixes s :: "('w::len) word SessionPrivate"
  assumes "ncommands es = Suc (2 ^ LENGTH('w))"
  shows "fst (run dec es s) ! (2 ^ LENGTH('w)) = fst (run dec es s) ! 0"
proof -
  have "(0::nat) < ncommands es" "(2 ^ LENGTH('w) :: nat) < ncommands es"
    using assms by simp_all
  then show ?thesis by (simp add: run_nth)
qed

section \<open>Properties of SELECT and EXAMINE\<close>

lemma indexOf_first: "c \<notin> set xs \<Longrightarrow> indexOf c (xs @ c # ys) = int (length xs)"
  by (induction xs) (auto simp: Let_def)

lemma indexOf_absent: "c \<notin> set xs \<Longrightarrow> indexOf c xs = - 1"
  by (induction xs) (auto simp: Let_def)

lemma mailBoxArgument_quoted:
  "CHR 0x22 \<notin> set name \<Longrightarrow> mailBoxArgument (CHR 0x22 # name @ CHR 0x22 # rest) = name"
  by (simp add: mailBoxArgument_def remove_first_byte_def Let_def indexOf_first left_def)

lemma mailBoxArgument_unquoted:
  "CHR 0x22 \<notin> set args \<Longrightarrow> args \<noteq> [] \<Longrightarrow> mailBoxArgument args = []"
  by (cases args)
     (auto simp: mailBoxArgument_def remove_first_byte_def Let_def indexOf_absent left_def)

lemma responseReceived_pendingSelect:
  "pendingSelect tag name s \<Longrightarrow> tag \<noteq> [] \<Longrightarrow> responseTag r \<noteq> tag \<Longrightarrow>
   pendingSelect tag name (responseReceived r s)"
proof (cases "responseStatus r = ''BYE''")
  case True
  assume "pendingSelect tag name s"
  then show ?thesis using True by (simp add: responseReceived_BYE pendingSelect_def)
next
  case False
  assume a: "pendingSelect tag name s" "tag \<noteq> []" "responseTag r \<noteq> tag"
  then have nd: "state s \<noteq> Disconnected" by (auto simp: pendingSelect_def)
  have up: "upcomingMailBox (responseReceived r s) = upcomingMailBox s"
    by (simp add: responseReceived_def Let_def)
  have tg: "selectTag (responseReceived r s) = tag" "closeTag (responseReceived r s) \<noteq> tag"
    using responseReceived_clears [OF nd False] a by (simp_all add: pendingSelect_def)
  have st: "state (responseReceived r s) = Authenticated \<or> state (responseReceived r s) = Selected"
    using a False nd
    by (cases "state s") (simp_all add: pendingSelect_def responseReceived_def Let_def transition_state)
  show ?thesis using up tg st a(1) by (simp add: pendingSelect_def)
qed

lemma sendCommand_pendingSelect:
  "pendingSelect tag name s \<Longrightarrow> c \<noteq> ''SELECT'' \<Longrightarrow> c \<noteq> ''EXAMINE'' \<Longrightarrow>
   fst (sendCommand dec c a s) \<noteq> tag \<Longrightarrow> pendingSelect tag name (snd (sendCommand dec c a s))"
  by (auto simp: pendingSelect_def sendCommand_tags sendCommand_upcomingMailBox)

lemma run_pendingSelect:
  "run dec es s = (tags, s2) \<Longrightarrow> pendingSelect tag name s \<Longrightarrow> tag \<noteq> [] \<Longrightarrow>
   list_all (keepsSelect tag) es \<Longrightarrow> tag \<notin> set tags \<Longrightarrow> pendingSelect tag name s2"
proof (induction dec es s arbitrary: tags s2 rule: run.induct)
  case (1 dec s)
  then show ?case by simp
next
  case (2 dec r es s)
  then show ?case by (simp add: responseReceived_pendingSelect)
next
  case (3 dec c a es s)
  obtain t s1 where sc: "sendCommand dec c a s = (t, s1)" by (cases "sendCommand dec c a s")
  obtain tags1 where r1: "run dec es s1 = (tags1, s2)" and tg: "tags = t # tags1"
    using "3.prems"(1) sc by (auto split: prod.splits)
  have "pendingSelect tag name s1"
    using sendCommand_pendingSelect [of tag name s c dec a] "3.prems" sc tg by auto
  then show ?case
    using "3.IH" [OF sc [symmetric] r1] "3.prems" tg by simp
qed

lemma pendingSelect_completion:
  "pendingSelect tag name s \<Longrightarrow> responseTag r = tag \<Longrightarrow> responseStatus r = ''OK'' \<Longrightarrow>
   state (responseReceived r s) = Selected \<and> selectedMailBox (responseReceived r s) = name"
proof -
  assume a: "pendingSelect tag name s" "responseTag r = tag" "responseStatus r = ''OK''"
  then have b: "tag \<noteq> closeTag s" by (auto simp: pendingSelect_def)
  have "state (responseReceived r s) = Selected"
    using a b
    by (cases "state s") (simp_all add: pendingSelect_def responseReceived_def Let_def transition_state)
  moreover have "currentMailBox (responseReceived r s) = name"
    using a b
    by (cases "state s") (simp_all add: pendingSelect_def responseReceived_def Let_def transition_def)
  ultimately show ?thesis by (simp add: selectedMailBox_def)
qed

lemma tagOf_not_empty: "tagOf n \<noteq> []"
  by (simp add: tagOf_def)

text \<open>
  What the code does for a mailbox name that holds no double quote. When \<open>sendCommand\<close>
  is called with SELECT or EXAMINE and an argument that starts with the name between
  double quotes, the upcoming mailbox is the decoding of that name. When the session is
  \<open>Authenticated\<close> or \<open>Selected\<close>, the new tag is not the pending tag of a CLOSE, and
  until the completion arrives no response carries the tag, no other SELECT or EXAMINE
  is sent and the tag is not allocated again, the completion with that tag and status OK
  leaves the session \<open>Selected\<close>, and \<open>selectedMailBox()\<close> is the decoded name.
\<close>

lemma select_plain_name:
  fixes s :: "('w::len) word SessionPrivate"
  assumes "command = ''SELECT'' \<or> command = ''EXAMINE''"
    and "args = CHR 0x22 # name @ CHR 0x22 # rest" and "CHR 0x22 \<notin> set name"
    and "state s = Authenticated \<or> state s = Selected"
    and "sendCommand dec command args s = (tag, s1)"
    and "closeTag s \<noteq> tag"
    and "run dec es s1 = (tags, s2)"
    and "list_all (keepsSelect tag) es" and "tag \<notin> set tags"
    and "responseTag r = tag" and "responseStatus r = ''OK''"
  shows "upcomingMailBox s1 = dec name \<and> state (responseReceived r s2) = Selected \<and>
         selectedMailBox (responseReceived r s2) = dec name"
proof -
  have s1: "s1 = snd (sendCommand dec command args s)"
    and tag: "tag = fst (sendCommand dec command args s)"
    using assms(5) by simp_all
  have up: "upcomingMailBox s1 = dec name"
    unfolding s1 sendCommand_upcomingMailBox
    using assms(1,2,3) by (simp add: mailBoxArgument_quoted)
  have sel: "selectTag s1 = tag"
    unfolding s1 tag using assms(1) by (auto simp: sendCommand_tags)
  have cl: "closeTag s1 \<noteq> tag"
    using assms(1,6) unfolding s1 by (auto simp: sendCommand_tags)
  have st: "state s1 = Authenticated \<or> state s1 = Selected"
    unfolding s1 using assms(4) by simp
  have ne: "tag \<noteq> []" unfolding tag sendCommand_tag by (rule tagOf_not_empty)
  have "pendingSelect tag (dec name) s1"
    using up sel cl st by (simp add: pendingSelect_def)
  from run_pendingSelect [OF assms(7) this ne assms(8,9)]
  have "pendingSelect tag (dec name) s2" .
  from pendingSelect_completion [OF this assms(10,11)] up show ?thesis by simp
qed


lemma unat_2_16: "unat (1 + 1 :: 16 word) = 2"
  by simp

text \<open>
  The third scenario of the spec: SELECT "INBOX" in an authenticated session, then the
  untagged \<open>* 5 EXISTS\<close> and the completion \<open>A000002 OK [READ-WRITE] SELECT completed\<close>.
  The decoder is the identity, as mUTF-7 is on a name of plain ASCII letters.
\<close>

lemma select_INBOX:
  "fst (sendCommand (\<lambda>b. b) ''SELECT'' (CHR 0x22 # ''INBOX'' @ [CHR 0x22])
      (notAuthSession\<lparr> state := Authenticated, tagCount := 1 \<rparr>)) = ''A000002'' \<and>
   upcomingMailBox (snd (sendCommand (\<lambda>b. b) ''SELECT'' (CHR 0x22 # ''INBOX'' @ [CHR 0x22])
      (notAuthSession\<lparr> state := Authenticated, tagCount := 1 \<rparr>))) = ''INBOX'' \<and>
   state (responseReceived
      \<lparr> content = [String ''A000002'', String ''OK'', String ''SELECT'', String ''completed''],
        responseCode = [String ''READ-WRITE''] \<rparr>
      (responseReceived (response [''*'', ''5'', ''EXISTS''])
        (snd (sendCommand (\<lambda>b. b) ''SELECT'' (CHR 0x22 # ''INBOX'' @ [CHR 0x22])
          (notAuthSession\<lparr> state := Authenticated, tagCount := 1 \<rparr>))))) = Selected \<and>
   selectedMailBox (responseReceived
      \<lparr> content = [String ''A000002'', String ''OK'', String ''SELECT'', String ''completed''],
        responseCode = [String ''READ-WRITE''] \<rparr>
      (responseReceived (response [''*'', ''5'', ''EXISTS''])
        (snd (sendCommand (\<lambda>b. b) ''SELECT'' (CHR 0x22 # ''INBOX'' @ [CHR 0x22])
          (notAuthSession\<lparr> state := Authenticated, tagCount := 1 \<rparr>))))) = ''INBOX''"
proof -
  define s where "s = notAuthSession\<lparr> state := Authenticated, tagCount := 1 \<rparr>"
  define args where "args = CHR 0x22 # ''INBOX'' @ [CHR 0x22]"
  define r where "r = \<lparr> content = [String ''A000002'', String ''OK'', String ''SELECT'',
      String ''completed''], responseCode = [String ''READ-WRITE''] \<rparr>"
  define u where "u = response [''*'', ''5'', ''EXISTS'']"
  define tag where "tag = fst (sendCommand (\<lambda>b. b) ''SELECT'' args s)"
  define s1 where "s1 = snd (sendCommand (\<lambda>b. b) ''SELECT'' args s)"
  have tag: "tag = ''A000002''"
    unfolding tag_def sendCommand_tag
    by (simp add: s_def notAuthSession_fields unat_2_16 tagOf_examples)
  have h1: "''SELECT'' = ''SELECT'' \<or> ''SELECT'' = ''EXAMINE''" by simp
  have h2: "args = CHR 0x22 # ''INBOX'' @ CHR 0x22 # []" by (simp add: args_def)
  have h3: "CHR 0x22 \<notin> set ''INBOX''" by simp
  have h4: "state s = Authenticated \<or> state s = Selected" by (simp add: s_def)
  have h5: "sendCommand (\<lambda>b. b) ''SELECT'' args s = (tag, s1)" by (simp add: tag_def s1_def)
  have h6: "closeTag s \<noteq> tag" unfolding tag by (simp add: s_def notAuthSession_fields)
  have h7: "run (\<lambda>b. b) [Response u] s1 = ([], responseReceived u s1)" by simp
  have h8: "list_all (keepsSelect tag) [Response u]" unfolding tag by (simp add: u_def)
  have h9: "tag \<notin> set []" by simp
  have h10: "responseTag r = tag" unfolding tag by (simp add: r_def responseTag_def)
  have h11: "responseStatus r = ''OK''" by (simp add: r_def responseStatus_def)
  from select_plain_name [OF h1 h2 h3 h4 h5 h6 h7 h8 h9 h10 h11]
  have "tag = ''A000002'' \<and> upcomingMailBox s1 = ''INBOX'' \<and>
      state (responseReceived r (responseReceived u s1)) = Selected \<and>
      selectedMailBox (responseReceived r (responseReceived u s1)) = ''INBOX''"
    using tag by simp
  then show ?thesis unfolding tag_def s1_def r_def u_def args_def s_def .
qed

text \<open>
  C7 fails in the code for a mailbox name that holds a double quote. The argument is the
  quoted string of a name of three bytes (the letter a, a double quote, the letter b),
  the inner quote escaped by a backslash; without its surrounding quotes it is four
  bytes long. \<open>sendCommand\<close> cuts at the first double quote after the opening one:
  whatever the decoder, it is given the letter a followed by the backslash, and after
  the completion \<open>selectedMailBox()\<close> is the decoding of these two bytes. The mailbox
  whose name ends in the letter c instead of b gives the same bytes, so no decoder
  yields the name of both.
\<close>

theorem C7_select_inner_quote:
  "butlast (tl [CHR 0x22, CHR ''a'', CHR 0x5C, CHR 0x22, CHR ''b'', CHR 0x22]) =
     [CHR ''a'', CHR 0x5C, CHR 0x22, CHR ''b''] \<and>
   fst (sendCommand dec ''SELECT'' [CHR 0x22, CHR ''a'', CHR 0x5C, CHR 0x22, CHR ''b'', CHR 0x22]
      (notAuthSession\<lparr> state := Authenticated, tagCount := 1 \<rparr>)) = ''A000002'' \<and>
   upcomingMailBox (snd (sendCommand dec ''SELECT''
      [CHR 0x22, CHR ''a'', CHR 0x5C, CHR 0x22, CHR ''b'', CHR 0x22]
      (notAuthSession\<lparr> state := Authenticated, tagCount := 1 \<rparr>))) = dec [CHR ''a'', CHR 0x5C] \<and>
   state (responseReceived (response [''A000002'', ''OK''])
      (snd (sendCommand dec ''SELECT''
        [CHR 0x22, CHR ''a'', CHR 0x5C, CHR 0x22, CHR ''b'', CHR 0x22]
        (notAuthSession\<lparr> state := Authenticated, tagCount := 1 \<rparr>)))) = Selected \<and>
   selectedMailBox (responseReceived (response [''A000002'', ''OK''])
      (snd (sendCommand dec ''SELECT''
        [CHR 0x22, CHR ''a'', CHR 0x5C, CHR 0x22, CHR ''b'', CHR 0x22]
        (notAuthSession\<lparr> state := Authenticated, tagCount := 1 \<rparr>)))) =
     dec [CHR ''a'', CHR 0x5C] \<and>
   upcomingMailBox (snd (sendCommand dec ''SELECT''
      [CHR 0x22, CHR ''a'', CHR 0x5C, CHR 0x22, CHR ''c'', CHR 0x22]
      (notAuthSession\<lparr> state := Authenticated, tagCount := 1 \<rparr>))) = dec [CHR ''a'', CHR 0x5C]"
proof -
  define s where "s = notAuthSession\<lparr> state := Authenticated, tagCount := 1 \<rparr>"
  define args where "args = [CHR 0x22, CHR ''a'', CHR 0x5C, CHR 0x22, CHR ''b'', CHR 0x22]"
  define args2 where "args2 = [CHR 0x22, CHR ''a'', CHR 0x5C, CHR 0x22, CHR ''c'', CHR 0x22]"
  define s1 where "s1 = snd (sendCommand dec ''SELECT'' args s)"
  have tag: "fst (sendCommand dec ''SELECT'' args s) = ''A000002''"
    unfolding sendCommand_tag
    by (simp add: s_def notAuthSession_fields unat_2_16 tagOf_examples)
  have arg: "mailBoxArgument args = [CHR ''a'', CHR 0x5C]"
    using mailBoxArgument_quoted [of "[CHR ''a'', CHR 0x5C]" "[CHR ''b'', CHR 0x22]"]
    by (simp add: args_def)
  have arg2: "mailBoxArgument args2 = [CHR ''a'', CHR 0x5C]"
    using mailBoxArgument_quoted [of "[CHR ''a'', CHR 0x5C]" "[CHR ''c'', CHR 0x22]"]
    by (simp add: args2_def)
  have up: "upcomingMailBox s1 = dec [CHR ''a'', CHR 0x5C]"
    unfolding s1_def sendCommand_upcomingMailBox by (simp add: arg)
  have up2: "upcomingMailBox (snd (sendCommand dec ''SELECT'' args2 s)) = dec [CHR ''a'', CHR 0x5C]"
    unfolding sendCommand_upcomingMailBox by (simp add: arg2)
  have sel: "selectTag s1 = ''A000002''"
    unfolding s1_def by (simp add: sendCommand_tags tag)
  have st: "state s1 = Authenticated" unfolding s1_def by (simp add: s_def)
  have sm: "selectedMailBox (responseReceived (response [''A000002'', ''OK'']) s1) =
      dec [CHR ''a'', CHR 0x5C]"
    by (simp add: selectedMailBox_def responseReceived_def Let_def transition_def st sel up)
  have ss: "state (responseReceived (response [''A000002'', ''OK'']) s1) = Selected"
    by (simp add: responseReceived_def Let_def transition_state st sel)
  have bl: "butlast (tl args) = [CHR ''a'', CHR 0x5C, CHR 0x22, CHR ''b'']"
    by (simp add: args_def)
  have "butlast (tl args) = [CHR ''a'', CHR 0x5C, CHR 0x22, CHR ''b''] \<and>
      fst (sendCommand dec ''SELECT'' args s) = ''A000002'' \<and>
      upcomingMailBox s1 = dec [CHR ''a'', CHR 0x5C] \<and>
      state (responseReceived (response [''A000002'', ''OK'']) s1) = Selected \<and>
      selectedMailBox (responseReceived (response [''A000002'', ''OK'']) s1) =
        dec [CHR ''a'', CHR 0x5C] \<and>
      upcomingMailBox (snd (sendCommand dec ''SELECT'' args2 s)) = dec [CHR ''a'', CHR 0x5C]"
    using tag up up2 sm ss bl by blast
  then show ?thesis unfolding s1_def args_def args2_def s_def .
qed


section \<open>Properties of the job queue\<close>

lemma jobDestroyed_effects [simp]: "effects (jobDestroyed job s) = effects s"
  by (simp add: jobDestroyed_def Let_def)

lemma deleteAll_effects: "effects (deleteAll jobs s) = effects s @ map JobDelete jobs"
  by (induction jobs arbitrary: s) simp_all

lemma clearJobQueue_effects:
  "effects (clearJobQueue s) =
     effects s @
     (case receiver s of Some job \<Rightarrow> [JobConnectionLost job] | None \<Rightarrow> []) @
     map JobDelete (bystanders s) @
     [EmitJobQueueSizeChanged 0]"
  by (cases "currentJob s"; cases "queue s")
     (simp_all add: clearJobQueue_def Let_def receiver_def bystanders_def deleteAll_effects)

lemma clearJobQueue_queue [simp]: "queue (clearJobQueue s) = []"
  by (simp add: clearJobQueue_def Let_def)

lemma receiver_frame [simp]:
  "receiver (emit e s) = receiver s"
  "receiver (stopSocketTimer s) = receiver s"
  "receiver (setState st s) = receiver s"
  "receiver (s\<lparr> isSocketConnected := b \<rparr>) = receiver s"
  "bystanders (emit e s) = bystanders s"
  "bystanders (stopSocketTimer s) = bystanders s"
  "bystanders (setState st s) = bystanders s"
  "bystanders (s\<lparr> isSocketConnected := b \<rparr>) = bystanders s"
  by (simp_all add: receiver_def bystanders_def split: option.splits)

lemma socketDisconnected_effects:
  "effects (socketDisconnected s) =
     effects s @
     (if logger s \<and> (state s = Authenticated \<or> state s = Selected)
      then [LoggerDisconnectionOccured] else []) @
     [if state s \<noteq> Disconnected then EmitStateChanged Disconnected (state s)
      else EmitConnectionFailed] @
     (case receiver s of Some job \<Rightarrow> [JobConnectionLost job] | None \<Rightarrow> []) @
     map JobDelete (bystanders s) @
     [EmitJobQueueSizeChanged 0]"
  by (simp add: socketDisconnected_def Let_def clearJobQueue_effects setState_effects)

lemma socketError_effects:
  "effects (socketError e s) =
     effects s @
     (case receiver s of Some job \<Rightarrow> [JobSetSocketError job e] | None \<Rightarrow> []) @
     (if isSocketConnected s then [SocketClose] else [])"
  by (cases "currentJob s"; cases "queue s")
     (simp_all add: socketError_def Let_def receiver_def closeSocket_def)

lemma count_map_JobDelete [simp]:
  "countSocketError job (map JobDelete js) = 0"
  "countConnectionLost job (map JobDelete js) = 0"
  by (induction js) (simp_all add: countSocketError_def countConnectionLost_def)

lemma count_append [simp]:
  "countSocketError job (xs @ ys) = countSocketError job xs + countSocketError job ys"
  "countConnectionLost job (xs @ ys) = countConnectionLost job xs + countConnectionLost job ys"
  by (simp_all add: countSocketError_def countConnectionLost_def)

lemma count_simps [simp]:
  "countSocketError job [] = 0"
  "countConnectionLost job [] = 0"
  "countSocketError job (e # es) = (if isSocketError job e then 1 else 0) + countSocketError job es"
  "countConnectionLost job (e # es) =
     (if isConnectionLost job e then 1 else 0) + countConnectionLost job es"
  by (simp_all add: countSocketError_def countConnectionLost_def)

text \<open>
  C2, as the code has it. On a transport error exactly one job is given
  \<open>setSocketError\<close>, once: the current job, or else the first queued, which is the
  current job afterwards, the jobs behind it staying in the queue; the error handler
  gives no job \<open>connectionLost\<close>. On a disconnect exactly one job is given
  \<open>connectionLost\<close>, once: again the current job or else the first queued; no job is
  given \<open>setSocketError\<close>, the queue ends empty, and every other queued job is deleted
  without a notification of either kind.
\<close>

theorem C2_one_job_notified:
  "countSocketError job (newEffects s (socketError e s)) =
     (if receiver s = Some job then 1 else 0) \<and>
   countConnectionLost job (newEffects s (socketError e s)) = 0 \<and>
   currentJob (socketError e s) = receiver s \<and>
   queue (socketError e s) = bystanders s \<and>
   countConnectionLost job (newEffects s (socketDisconnected s)) =
     (if receiver s = Some job then 1 else 0) \<and>
   countSocketError job (newEffects s (socketDisconnected s)) = 0 \<and>
   queue (socketDisconnected s) = [] \<and>
   (job \<in> set (queue s) \<and> receiver s \<noteq> Some job \<longrightarrow>
      JobDelete job \<in> set (newEffects s (socketDisconnected s)))"
proof -
  have a: "newEffects s (socketError e s) =
     (case receiver s of Some job \<Rightarrow> [JobSetSocketError job e] | None \<Rightarrow> []) @
     (if isSocketConnected s then [SocketClose] else [])"
    by (simp add: newEffects_def socketError_effects)
  have b: "newEffects s (socketDisconnected s) =
     (if logger s \<and> (state s = Authenticated \<or> state s = Selected)
      then [LoggerDisconnectionOccured] else []) @
     [if state s \<noteq> Disconnected then EmitStateChanged Disconnected (state s)
      else EmitConnectionFailed] @
     (case receiver s of Some job \<Rightarrow> [JobConnectionLost job] | None \<Rightarrow> []) @
     map JobDelete (bystanders s) @
     [EmitJobQueueSizeChanged 0]"
    by (simp add: newEffects_def socketDisconnected_effects)
  have 1: "countSocketError job (newEffects s (socketError e s)) =
     (if receiver s = Some job then 1 else 0)"
    unfolding a by (cases "receiver s") auto
  have 2: "countConnectionLost job (newEffects s (socketError e s)) = 0"
    unfolding a by (cases "receiver s") auto
  have 3: "countConnectionLost job (newEffects s (socketDisconnected s)) =
     (if receiver s = Some job then 1 else 0)"
    unfolding b by (cases "receiver s") auto
  have 4: "countSocketError job (newEffects s (socketDisconnected s)) = 0"
    unfolding b by (cases "receiver s") auto
  have 5: "queue (socketDisconnected s) = []"
    by (simp add: socketDisconnected_def Let_def)
  have 6: "JobDelete job \<in> set (newEffects s (socketDisconnected s))"
    if "job \<in> set (queue s)" "receiver s \<noteq> Some job"
  proof -
    have "job \<in> set (bystanders s)"
      using that by (cases "currentJob s"; cases "queue s") (auto simp: receiver_def bystanders_def)
    then show ?thesis unfolding b by auto
  qed
  have 7: "currentJob (socketError e s) = receiver s"
    by (cases "currentJob s"; cases "queue s")
       (simp_all add: socketError_def Let_def receiver_def closeSocket_def)
  have 8: "queue (socketError e s) = bystanders s"
    by (cases "currentJob s"; cases "queue s")
       (simp_all add: socketError_def Let_def bystanders_def closeSocket_def)
  show ?thesis using 1 2 3 4 5 6 7 8 by blast
qed


lemma socketError_fields:
  "state (socketError e s) = state s"
  "logger (socketError e s) = logger s"
  "currentJob (socketError e s) = receiver s"
  "queue (socketError e s) = bystanders s"
  by (cases "currentJob s"; cases "queue s";
      simp add: socketError_def Let_def receiver_def bystanders_def closeSocket_def)+

lemma queuedSession_fields:
  "state queuedSession = Selected" "logger queuedSession = False"
  "currentJob queuedSession = Some 1" "queue queuedSession = [2, 3]"
  "effects queuedSession = []" "isSocketConnected queuedSession = True"
  "receiver queuedSession = Some 1" "bystanders queuedSession = [2, 3]"
  by (simp_all add: queuedSession_def selectedSession_def newSession_def startSocketTimer_def
      receiver_def bystanders_def)

lemma waitingSession_fields:
  "currentJob waitingSession = None" "queue waitingSession = [2, 3]"
  "receiver waitingSession = Some 2" "bystanders waitingSession = [3]"
  by (simp_all add: waitingSession_def addJob_def startNext_def doStartNext_def Let_def
      newSession_def startSocketTimer_def receiver_def bystanders_def)

text \<open>
  C2 at two concrete inputs: job 1 running with jobs 2 and 3 queued; and no job
  running with jobs 2 and 3 queued, where the error makes job 2 current and leaves job 3
  in the queue.
\<close>

theorem C2_one_job_notified_witness:
  "receiver queuedSession = Some 1 \<and> queue queuedSession = [2, 3] \<and>
   countSocketError 1 (newEffects queuedSession (socketError 7 queuedSession)) = 1 \<and>
   currentJob (socketError 7 queuedSession) = Some 1 \<and>
   queue (socketError 7 queuedSession) = [2, 3] \<and>
   countConnectionLost 1 (newEffects queuedSession (socketDisconnected queuedSession)) = 1 \<and>
   countConnectionLost 2 (newEffects queuedSession (socketDisconnected queuedSession)) = 0 \<and>
   JobDelete 2 \<in> set (newEffects queuedSession (socketDisconnected queuedSession)) \<and>
   currentJob waitingSession = None \<and> queue waitingSession = [2, 3] \<and>
   countSocketError 2 (newEffects waitingSession (socketError 7 waitingSession)) = 1 \<and>
   countSocketError 3 (newEffects waitingSession (socketError 7 waitingSession)) = 0 \<and>
   currentJob (socketError 7 waitingSession) = Some 2 \<and>
   queue (socketError 7 waitingSession) = [3] \<and>
   countConnectionLost 2 (newEffects waitingSession (socketDisconnected waitingSession)) = 1 \<and>
   JobDelete 3 \<in> set (newEffects waitingSession (socketDisconnected waitingSession))"
  using C2_one_job_notified [of 1 queuedSession 7] C2_one_job_notified [of 2 queuedSession 7]
    C2_one_job_notified [of 2 waitingSession 7] C2_one_job_notified [of 3 waitingSession 7]
  by (simp add: queuedSession_fields waitingSession_fields)

text \<open>
  C2 as the claim states it fails both ways. On a disconnect with job 1 running and
  jobs 2 and 3 queued, jobs 2 and 3 are deleted and were told nothing. And when a
  transport error is followed by the disconnect that \<open>closeSocket\<close> brings about, job 1
  is given \<open>setSocketError\<close> and then \<open>connectionLost\<close>: \<open>socketError\<close> leaves it
  current.
\<close>

theorem C2_one_job_notified_counterexample:
  "currentJob queuedSession = Some 1 \<and> queue queuedSession = [2, 3] \<and>
   effects queuedSession = [] \<and>
   effects (socketDisconnected queuedSession) =
     [EmitStateChanged Disconnected Selected, JobConnectionLost 1, JobDelete 2, JobDelete 3,
      EmitJobQueueSizeChanged 0] \<and>
   effects (socketDisconnected (socketError 7 queuedSession)) =
     [JobSetSocketError 1 7, SocketClose, EmitStateChanged Disconnected Selected,
      JobConnectionLost 1, JobDelete 2, JobDelete 3, EmitJobQueueSizeChanged 0]"
proof -
  have r: "receiver (socketError 7 queuedSession) = Some 1"
    by (simp add: receiver_def socketError_fields queuedSession_fields)
  have b: "bystanders (socketError 7 queuedSession) = [2, 3]"
    by (simp add: bystanders_def socketError_fields queuedSession_fields)
  show ?thesis
    by (simp add: socketDisconnected_effects socketError_effects socketError_fields
        queuedSession_fields r b)
qed


section \<open>Properties of the TLS version ladder\<close>

lemma call_fields [simp]:
  "m_encryptedMode (call c t) = m_encryptedMode t"
  "triedSslVersions (call c t) = triedSslVersions t"
  "doSslFallback (call c t) = doSslFallback t"
  "socketState (call c t) = socketState t"
  "advertisedSslVersion (call c t) = advertisedSslVersion t"
  "calls (call c t) = calls t @ [c]"
  by (simp_all add: call_def)

lemma startSsl_Any_advertised:
  "advertisedSslVersion (startSsl AnySslVersion t) =
     (if advertisedSslVersion t = UnknownSslVersion then AnySslVersion
      else if triedSslVersions t AND 8 = 0 then TlsV1
      else if triedSslVersions t AND 4 = 0 then SslV3
      else if triedSslVersions t AND 2 = 0 then SslV2
      else advertisedSslVersion t)"
  by (simp add: startSsl_def Let_def setAdvertisedSslVersion_def)

lemma startSsl_Any_tried:
  "triedSslVersions (startSsl AnySslVersion t) =
     (if advertisedSslVersion t = UnknownSslVersion then triedSslVersions t
      else if triedSslVersions t AND 8 = 0 then triedSslVersions t OR 8
      else if triedSslVersions t AND 4 = 0 then triedSslVersions t OR 4
      else if triedSslVersions t AND 2 = 0 then triedSslVersions t OR 2
      else triedSslVersions t)"
  by (simp add: startSsl_def Let_def setAdvertisedSslVersion_def)

lemma startSsl_Any_fallback:
  "doSslFallback (startSsl AnySslVersion t) =
     (advertisedSslVersion t = UnknownSslVersion \<or> triedSslVersions t AND 8 = 0 \<or>
      triedSslVersions t AND 4 = 0 \<or> triedSslVersions t AND 2 \<noteq> 0)"
  by (simp add: startSsl_def Let_def setAdvertisedSslVersion_def)

lemma startSsl_encryptedMode [simp]:
  "m_encryptedMode (startSsl v t) = m_encryptedMode t"
  by (simp add: startSsl_def Let_def setAdvertisedSslVersion_def)

lemma reconnected_fields [simp]:
  "m_encryptedMode (reconnected t) = m_encryptedMode t"
  "triedSslVersions (reconnected t) = triedSslVersions t"
  "doSslFallback (reconnected t) = doSslFallback t"
  "advertisedSslVersion (reconnected t) = advertisedSslVersion t"
  by (simp_all add: reconnected_def SessionThread_socketDisconnected_def reconnect_def)

lemma reconnected_calls:
  "newCalls t (reconnected t) =
     (if doSslFallback t then
        (if m_encryptedMode t then [ConnectToHostEncrypted] else [ConnectToHost])
      else [SessionSocketDisconnected])"
  by (simp add: newCalls_def reconnected_def SessionThread_socketDisconnected_def reconnect_def)

lemma attempt_0: "attempt 0 t = startSsl AnySslVersion t"
  by (simp add: attempt_def)

lemma attempt_Suc: "attempt (Suc k) t = startSsl AnySslVersion (reconnected (attempt k t))"
  by (simp add: attempt_def)

lemma bits:
  "(0::int) AND 8 = 0" "(0::int) OR 8 = 8" "(8::int) AND 8 = 8" "(8::int) AND 4 = 0"
  "(8::int) OR 4 = 12" "(12::int) AND 8 = 8" "(12::int) AND 4 = 4" "(12::int) AND 2 = 0"
  "(12::int) OR 2 = 14" "(14::int) AND 8 = 8" "(14::int) AND 4 = 4" "(14::int) AND 2 = 2"
  by simp_all

lemma ladder_from_known:
  assumes "triedSslVersions t = 0" and "advertisedSslVersion t \<noteq> UnknownSslVersion"
  shows "advertisedSslVersion (attempt 0 t) = TlsV1 \<and> triedSslVersions (attempt 0 t) = 8 \<and>
         doSslFallback (attempt 0 t) \<and>
         advertisedSslVersion (attempt 1 t) = SslV3 \<and> triedSslVersions (attempt 1 t) = 12 \<and>
         doSslFallback (attempt 1 t) \<and>
         advertisedSslVersion (attempt 2 t) = SslV2 \<and> triedSslVersions (attempt 2 t) = 14 \<and>
         \<not> doSslFallback (attempt 2 t) \<and>
         advertisedSslVersion (attempt 3 t) = SslV2 \<and> triedSslVersions (attempt 3 t) = 14 \<and>
         doSslFallback (attempt 3 t)"
proof -
  have a0: "advertisedSslVersion (attempt 0 t) = TlsV1" "triedSslVersions (attempt 0 t) = 8"
    "doSslFallback (attempt 0 t)"
    using assms
    by (simp_all add: attempt_0 startSsl_Any_advertised startSsl_Any_tried startSsl_Any_fallback)
  have a1: "advertisedSslVersion (attempt (Suc 0) t) = SslV3"
    "triedSslVersions (attempt (Suc 0) t) = 12" "doSslFallback (attempt (Suc 0) t)"
    using a0
    by (simp_all add: attempt_Suc startSsl_Any_advertised startSsl_Any_tried
        startSsl_Any_fallback)
  have a2: "advertisedSslVersion (attempt (Suc (Suc 0)) t) = SslV2"
    "triedSslVersions (attempt (Suc (Suc 0)) t) = 14" "\<not> doSslFallback (attempt (Suc (Suc 0)) t)"
    using a1
    by (simp_all add: attempt_Suc [of "Suc 0"] startSsl_Any_advertised startSsl_Any_tried
        startSsl_Any_fallback)
  have a3: "advertisedSslVersion (attempt (Suc (Suc (Suc 0))) t) = SslV2"
    "triedSslVersions (attempt (Suc (Suc (Suc 0))) t) = 14"
    "doSslFallback (attempt (Suc (Suc (Suc 0))) t)"
    using a2
    by (simp_all add: attempt_Suc [of "Suc (Suc 0)"] startSsl_Any_advertised startSsl_Any_tried
        startSsl_Any_fallback)
  show ?thesis using a0 a1 a2 a3 by (simp add: eval_nat_numeral)
qed


lemma attempt_encryptedMode [simp]: "m_encryptedMode (attempt k t) = m_encryptedMode t"
  by (induction k) (simp_all add: attempt_0 attempt_Suc)

lemma attempt_Suc_shift:
  "attempt (Suc k) t = attempt k (reconnected (startSsl AnySslVersion t))"
proof -
  have "((\<lambda>u. reconnected (startSsl AnySslVersion u)) ^^ Suc k) t =
      ((\<lambda>u. reconnected (startSsl AnySslVersion u)) ^^ k)
        (reconnected (startSsl AnySslVersion t))"
    by (simp only: funpow_Suc_right comp_def)
  then show ?thesis unfolding attempt_def by simp
qed

lemma afterAttempt_Suc_shift:
  "afterAttempt (Suc k) t = afterAttempt k (reconnected (startSsl AnySslVersion t))"
  by (simp add: afterAttempt_def attempt_Suc_shift)

lemma afterAttempt_known:
  assumes "triedSslVersions t = 0" and "\<not> m_encryptedMode t"
    and "advertisedSslVersion t \<noteq> UnknownSslVersion"
  shows "afterAttempt 0 t = (TlsV1, 8, True, [ConnectToHost])"
    and "afterAttempt (Suc 0) t = (SslV3, 12, True, [ConnectToHost])"
    and "afterAttempt (Suc (Suc 0)) t = (SslV2, 14, False, [SessionSocketDisconnected])"
    and "afterAttempt (Suc (Suc (Suc 0))) t = (SslV2, 14, True, [ConnectToHost])"
  using ladder_from_known [OF assms(1,3)] assms(2)
  by (simp_all add: afterAttempt_def reconnected_calls eval_nat_numeral)

text \<open>
  C8, as the code has it. When TLS is requested with \<open>AnySslVersion\<close> again and again
  on a thread that has tried nothing yet and is not in encrypted mode, the attempts
  advertise TLS 1.0, then SSL 3, then SSL 2; when the socket advertises no version yet,
  one attempt with \<open>AnySslVersion\<close> itself comes first. Each of the three fallback
  attempts sets its bit in \<open>triedSslVersions\<close>; after each attempt but the last the
  fallback flag is set and the loss of the connection is answered by a plaintext
  \<open>connectToHost\<close>; the attempt with SSL 2, the last of the ladder, clears the flag, and
  the loss of the connection is then reported to the session.
\<close>

theorem C8_ssl_ladder:
  assumes "triedSslVersions t = 0" and "\<not> m_encryptedMode t"
  shows "(advertisedSslVersion t \<noteq> UnknownSslVersion \<longrightarrow>
            map (\<lambda>k. afterAttempt k t) [0, 1, 2] =
              [(TlsV1, 8, True, [ConnectToHost]),
               (SslV3, 12, True, [ConnectToHost]),
               (SslV2, 14, False, [SessionSocketDisconnected])]) \<and>
         (advertisedSslVersion t = UnknownSslVersion \<longrightarrow>
            map (\<lambda>k. afterAttempt k t) [0, 1, 2, 3] =
              [(AnySslVersion, 0, True, [ConnectToHost]),
               (TlsV1, 8, True, [ConnectToHost]),
               (SslV3, 12, True, [ConnectToHost]),
               (SslV2, 14, False, [SessionSocketDisconnected])])"
proof (intro conjI impI)
  assume "advertisedSslVersion t \<noteq> UnknownSslVersion"
  from afterAttempt_known(1-3) [OF assms this]
  show "map (\<lambda>k. afterAttempt k t) [0, 1, 2] =
      [(TlsV1, 8, True, [ConnectToHost]), (SslV3, 12, True, [ConnectToHost]),
       (SslV2, 14, False, [SessionSocketDisconnected])]"
    by (simp add: eval_nat_numeral)
next
  assume u: "advertisedSslVersion t = UnknownSslVersion"
  define t1 where "t1 = reconnected (startSsl AnySslVersion t)"
  have t1: "triedSslVersions t1 = 0" "\<not> m_encryptedMode t1"
    "advertisedSslVersion t1 \<noteq> UnknownSslVersion"
    using assms u by (simp_all add: t1_def startSsl_Any_tried startSsl_Any_advertised)
  have a0: "afterAttempt 0 t = (AnySslVersion, 0, True, [ConnectToHost])"
    using assms u
    by (simp add: afterAttempt_def attempt_0 startSsl_Any_tried startSsl_Any_advertised
        startSsl_Any_fallback reconnected_calls)
  from afterAttempt_known(1-3) [OF t1] a0
  show "map (\<lambda>k. afterAttempt k t) [0, 1, 2, 3] =
      [(AnySslVersion, 0, True, [ConnectToHost]), (TlsV1, 8, True, [ConnectToHost]),
       (SslV3, 12, True, [ConnectToHost]), (SslV2, 14, False, [SessionSocketDisconnected])]"
    by (simp add: eval_nat_numeral afterAttempt_Suc_shift t1_def)
qed

lemma newSessionThread_fields [simp]:
  "triedSslVersions (newSessionThread v) = 0" "\<not> m_encryptedMode (newSessionThread v)"
  "advertisedSslVersion (newSessionThread v) = v"
  by (simp_all add: newSessionThread_def)

text \<open>
  C8 at concrete inputs: a new thread on a socket that advertises SSL 3, and one on a
  socket that advertises no version yet.
\<close>

theorem C8_ssl_ladder_witness:
  "map (\<lambda>k. afterAttempt k (newSessionThread SslV3)) [0, 1, 2] =
     [(TlsV1, 8, True, [ConnectToHost]),
      (SslV3, 12, True, [ConnectToHost]),
      (SslV2, 14, False, [SessionSocketDisconnected])] \<and>
   map (\<lambda>k. afterAttempt k (newSessionThread UnknownSslVersion)) [0, 1, 2, 3] =
     [(AnySslVersion, 0, True, [ConnectToHost]),
      (TlsV1, 8, True, [ConnectToHost]),
      (SslV3, 12, True, [ConnectToHost]),
      (SslV2, 14, False, [SessionSocketDisconnected])]"
  using C8_ssl_ladder [of "newSessionThread SslV3"] C8_ssl_ladder [of "newSessionThread UnknownSslVersion"]
  by simp

text \<open>
  C8 as the claim states it fails: no attempt advertises TLS 1.2 or TLS 1.1. The ladder
  has three fallback versions (TLS 1.0, SSL 3, SSL 2), not five, and a further attempt
  after the ladder advertises nothing new.
\<close>

theorem C8_ssl_ladder_counterexample:
  "map (\<lambda>k. advertisedSslVersion (attempt k (newSessionThread UnknownSslVersion)))
     [0, 1, 2, 3, 4] = [AnySslVersion, TlsV1, SslV3, SslV2, SslV2] \<and>
   map (\<lambda>k. advertisedSslVersion (attempt k (newSessionThread SslV3)))
     [0, 1, 2, 3] = [TlsV1, SslV3, SslV2, SslV2] \<and>
   advertisedSslVersion (attempt 0 (newSessionThread UnknownSslVersion)) \<noteq> TlsV1_2 \<and>
   advertisedSslVersion (attempt 0 (newSessionThread SslV3)) \<noteq> TlsV1_2"
proof -
  define t1 where "t1 = reconnected (startSsl AnySslVersion (newSessionThread UnknownSslVersion))"
  have t1: "triedSslVersions t1 = 0" "advertisedSslVersion t1 \<noteq> UnknownSslVersion"
    by (simp_all add: t1_def startSsl_Any_tried startSsl_Any_advertised)
  have a0: "advertisedSslVersion (attempt 0 (newSessionThread UnknownSslVersion)) = AnySslVersion"
    by (simp add: attempt_0 startSsl_Any_advertised)
  have k: "triedSslVersions (newSessionThread SslV3) = 0"
    "advertisedSslVersion (newSessionThread SslV3) \<noteq> UnknownSslVersion"
    by simp_all
  show ?thesis
    using ladder_from_known [OF t1] ladder_from_known [OF k] a0
    by (simp add: eval_nat_numeral attempt_Suc_shift [of _ "newSessionThread UnknownSslVersion"]
        t1_def)
qed


section \<open>Properties of the reader\<close>









section \<open>Properties of the parts\<close>

text \<open>The message that a drain hands to \<open>responseReceived\<close> is the message that the
  loop has built from the saved parser state, starting from the empty message with
  \<open>payload\<close> pointing to its content.\<close>

lemma readMessage_emits:
  assumes "availableDataSize ops p \<noteq> 0" and "parse ops p = (True, p1)"
    and "readParts ops fuel (saveState ops p1) ToContent emptyMessage =
           Some (AtCommandEnd, p2, message)"
    and "\<not> insufficientData ops p2"
  shows "readMessage ops fuel (p, s) =
     Some (trimBuffer ops p2,
       if availableDataSize ops (trimBuffer ops p2) \<ge> 1
       then emit (InvokeMethod ReadMessage QueuedConnection) (responseReceived message s)
       else responseReceived message s)"
  using assms by (simp add: readMessage_def Let_def)












section \<open>Properties of the greeting\<close>

text \<open>
  C1, as the code has it. When the session is \<open>Disconnected\<close> and a response with
  status OK arrives, the state becomes \<open>NotAuthenticated\<close>, the change of state is
  signalled, and the greeting saved is the text of the response without its first two
  parts (the tag and the status code), trimmed.
\<close>

theorem C1_greeting_saved:
  assumes "state s = Disconnected" and "responseStatus r = ''OK''"
  shows "state (responseReceived r s) = NotAuthenticated \<and>
         serverGreeting (responseReceived r s) =
           trimmed (Message_toString (r\<lparr> content := drop 2 (content r) \<rparr>)) \<and>
         effects (responseReceived r s) =
           effects s @ [EmitStateChanged NotAuthenticated Disconnected]"
proof -
  have d: "tl (tl (content r)) = drop 2 (content r)"
    by (simp add: drop_Suc drop_tl numeral_2_eq_2)
  have st: "state (responseReceived r s) = NotAuthenticated"
    using assms by (simp add: responseReceived_def Let_def greetingReceived_def)
  have gr: "serverGreeting (responseReceived r s) =
      trimmed (Message_toString (r\<lparr> content := drop 2 (content r) \<rparr>))"
    using assms
    by (simp add: responseReceived_def Let_def greetingReceived_def serverGreeting_def
        simplified_def d)
  have ef: "effects (responseReceived r s) =
      effects s @ [EmitStateChanged NotAuthenticated Disconnected]"
    using assms
    by (simp add: responseReceived_def Let_def greetingReceived_def setState_effects)
  show ?thesis using st gr ef by blast
qed

lemma greeting_read:
  "state freshSession = Disconnected"
  "responseStatus greetingMessage = ''OK''"
  "responseTag greetingMessage = ''*''"
  "readMessage specStream 20 (greetingInput, freshSession) =
     Some (newStreamParser, responseReceived greetingMessage freshSession)"
  "trimmed (Message_toString (greetingMessage\<lparr> content := drop 2 (content greetingMessage) \<rparr>)) =
     ''IMAP4rev1 Service Ready''"
  "effects freshSession = []"
  by code_simp+

text \<open>
  C1 at the input of the spec's first scenario: the bytes \<open>* OK IMAP4rev1 Service Ready\<close>
  and CRLF, read by the parser of the spec into a new session.
\<close>

theorem C1_greeting_saved_witness:
  "state freshSession = Disconnected \<and> responseStatus greetingMessage = ''OK'' \<and>
   readMessage specStream 20 (greetingInput, freshSession) =
     Some (newStreamParser, responseReceived greetingMessage freshSession) \<and>
   state (responseReceived greetingMessage freshSession) = NotAuthenticated \<and>
   serverGreeting (responseReceived greetingMessage freshSession) = ''IMAP4rev1 Service Ready'' \<and>
   effects (responseReceived greetingMessage freshSession) =
     [EmitStateChanged NotAuthenticated Disconnected]"
  using C1_greeting_saved [OF greeting_read(1) greeting_read(2)] greeting_read
  by simp

text \<open>
  C1 as the claim states it fails: after the bytes \<open>* OK IMAP4rev1 Service Ready\<close> and
  CRLF the greeting is \<open>IMAP4rev1 Service Ready\<close>, without the status code. The greeting
  \<open>* PREAUTH IMAP4rev1 Service Ready\<close> leaves the same text.
\<close>

theorem C1_greeting_saved_counterexample:
  "readMessage specStream 20 (greetingInput, freshSession) =
     Some (newStreamParser, responseReceived greetingMessage freshSession) \<and>
   state (responseReceived greetingMessage freshSession) = NotAuthenticated \<and>
   serverGreeting (responseReceived greetingMessage freshSession) = ''IMAP4rev1 Service Ready'' \<and>
   serverGreeting (responseReceived greetingMessage freshSession) \<noteq>
     ''OK IMAP4rev1 Service Ready'' \<and>
   serverGreeting (responseReceived
     (response [''*'', ''PREAUTH'', ''IMAP4rev1'', ''Service'', ''Ready'']) freshSession) =
     ''IMAP4rev1 Service Ready''"
  by code_simp


section \<open>The reader returns on the parser of the spec\<close>

lemma peek_halted: "halted p \<Longrightarrow> peek p = (None, p)"
  by (auto simp: peek_def halted_def)

lemma peek_None: "peek p = (None, p1) \<Longrightarrow> halted p1"
  by (auto simp: peek_def halted_def Let_def starve_def advance_def split: if_splits list.splits)

lemma unread_available: "unread p \<noteq> [] \<longleftrightarrow> 0 < sp_availableDataSize p"
  by (auto simp: unread_def sp_availableDataSize_def)

lemma peek_Some:
  assumes "peek p = (Some c, p1)"
  shows "\<not> halted p" "\<not> halted p1" "unread p1 \<noteq> []" "hd (unread p1) = c"
    "sp_availableDataSize p1 \<le> sp_availableDataSize p" "0 < sp_availableDataSize p1"
proof -
  show a: "\<not> halted p" using assms by (auto simp: peek_def halted_def)
  define q where "q = advance (length (takeWhile (\<lambda>c. c = CHR '' '') (unread p))) p"
  have p1: "unread q = c # tl (unread q) \<and> p1 = q"
    using assms a
    by (auto simp: peek_def halted_def Let_def q_def split: list.splits)
  show "\<not> halted p1" using a p1 by (simp add: q_def halted_def advance_def)
  show u: "unread p1 \<noteq> []" using p1 by auto
  show "hd (unread p1) = c" using p1 by (metis list.sel(1))
  show "sp_availableDataSize p1 \<le> sp_availableDataSize p"
    using p1 by (simp add: q_def advance_def sp_availableDataSize_def)
  show "0 < sp_availableDataSize p1" using u by (simp add: unread_available)
qed

lemma fuelFor_halted: "halted p \<Longrightarrow> fuelFor p = 1"
  by (simp add: fuelFor_def)

lemma fuelFor_ge: "1 \<le> fuelFor p"
  by (simp add: fuelFor_def)

lemma fuelFor_alive: "\<not> halted p \<Longrightarrow> fuelFor p = sp_availableDataSize p + 4"
  by (simp add: fuelFor_def)

lemma peek_fuel: "peek p = (r, p1) \<Longrightarrow> fuelFor p1 \<le> fuelFor p"
proof (cases r)
  case None
  assume a: "peek p = (r, p1)"
  then have "halted p1" using None peek_None by simp
  then show ?thesis using fuelFor_ge [of p] by (simp add: fuelFor_halted)
next
  case (Some c)
  assume a: "peek p = (r, p1)"
  from peek_Some [OF a [unfolded Some]] show ?thesis by (simp add: fuelFor_alive)
qed

lemma starve_halted [simp]: "halted (starve p)"
  by (simp add: halted_def starve_def)

lemma fault_halted [simp]: "halted (p\<lparr> fault := True \<rparr>)"
  by (simp add: halted_def)

lemma halted_fuel_le: "halted p1 \<Longrightarrow> fuelFor p1 \<le> fuelFor p"
  using fuelFor_ge [of p] by (simp add: fuelFor_halted)

lemma halted_fuel_less: "halted p1 \<Longrightarrow> \<not> halted p \<Longrightarrow> fuelFor p1 < fuelFor p"
  by (simp add: fuelFor_def)

lemma advance_fuel_less:
  "\<not> halted p \<Longrightarrow> 0 < sp_availableDataSize p \<Longrightarrow> 0 < k \<Longrightarrow>
   fuelFor (advance k p) < fuelFor p"
  by (auto simp: fuelFor_def halted_def advance_def sp_availableDataSize_def)

lemma atCommandEnd_fuel: "sp_atCommandEnd p = (b, p1) \<Longrightarrow> \<not> b \<Longrightarrow> fuelFor p1 \<le> fuelFor p"
proof -
  assume a: "sp_atCommandEnd p = (b, p1)" "\<not> b"
  obtain r q where pk: "peek p = (r, q)" by (cases "peek p")
  have q: "fuelFor q \<le> fuelFor p" using peek_fuel [OF pk] .
  have "p1 = q \<or> halted p1"
    using a pk by (auto simp: sp_atCommandEnd_def split: option.splits list.splits if_splits)
  then show ?thesis using q halted_fuel_le by auto
qed

lemma hasString_fuel:
  assumes "sp_hasString p = (b, p1)"
  shows "fuelFor p1 \<le> fuelFor p"
    and "b \<Longrightarrow> \<not> halted p1 \<and> unread p1 \<noteq> [] \<and> \<not> isDelimiter (hd (unread p1))"
proof -
  obtain r q where pk: "peek p = (r, q)" by (cases "peek p")
  have e: "p1 = q" using assms pk by (auto simp: sp_hasString_def split: option.splits)
  show "fuelFor p1 \<le> fuelFor p" using peek_fuel [OF pk] e by simp
  show "\<not> halted p1 \<and> unread p1 \<noteq> [] \<and> \<not> isDelimiter (hd (unread p1))" if bt: b
  proof -
    obtain c where r: "r = Some c" "\<not> isDelimiter c"
      using assms pk bt by (auto simp: sp_hasString_def split: option.splits)
    from peek_Some [OF pk [unfolded r(1)]] r(2) e show ?thesis by simp
  qed
qed

lemma takeWhile_length_pos: "P x \<Longrightarrow> 0 < length (takeWhile P (x # xs))"
  by simp

lemma readString_fuel:
  assumes "\<not> halted p" "unread p \<noteq> []" "\<not> isDelimiter (hd (unread p))"
    and "sp_readString p = (s, p1)"
  shows "fuelFor p1 < fuelFor p"
proof -
  obtain c xs where u: "unread p = c # xs" using assms(2) by (cases "unread p") auto
  have av: "0 < sp_availableDataSize p" using assms(2) by (simp add: unread_available)
  have nd: "\<not> isDelimiter c" using assms(3) u by simp
  have "halted p1 \<or> (\<exists>k. 0 < k \<and> p1 = advance k p)"
  proof (cases "c = CHR 0x22")
    case True
    then show ?thesis
      using assms(4) u
      by (cases "scanQuoted xs") (auto simp: sp_readString_def)
  next
    case False
    then show ?thesis
      using assms(4) u nd
      by (auto simp: sp_readString_def Let_def split: if_splits)
  qed
  then show ?thesis
    using halted_fuel_less [OF _ assms(1)] advance_fuel_less [OF assms(1) av] by auto
qed

lemma hasList_fuel:
  assumes "sp_hasList p = (b, p1)"
  shows "fuelFor p1 \<le> fuelFor p" and "b \<Longrightarrow> \<not> halted p1 \<and> unread p1 \<noteq> []"
proof -
  obtain r q where pk: "peek p = (r, q)" by (cases "peek p")
  have e: "p1 = q" using assms pk by (auto simp: sp_hasList_def split: option.splits)
  show "fuelFor p1 \<le> fuelFor p" using peek_fuel [OF pk] e by simp
  show "\<not> halted p1 \<and> unread p1 \<noteq> []" if bt: b
  proof -
    obtain c where r: "r = Some c"
      using assms pk bt by (auto simp: sp_hasList_def split: option.splits)
    from peek_Some [OF pk [unfolded r]] e show ?thesis by simp
  qed
qed

lemma readParenthesizedList_fuel:
  assumes "\<not> halted p" "unread p \<noteq> []" and "sp_readParenthesizedList p = (l, p1)"
  shows "fuelFor p1 < fuelFor p"
proof -
  have av: "0 < sp_availableDataSize p" using assms(2) by (simp add: unread_available)
  have "halted p1 \<or> (\<exists>k. 0 < k \<and> p1 = advance k p)"
    using assms(3)
    by (auto simp: sp_readParenthesizedList_def split: option.splits)
  then show ?thesis
    using halted_fuel_less [OF _ assms(1)] advance_fuel_less [OF assms(1) av] by auto
qed

lemma bracket_fuel:
  assumes "peek p = (r, q)"
    and "p1 = (case r of None \<Rightarrow> q | Some c \<Rightarrow> if c = d then advance 1 q else q)"
    and "b = (case r of None \<Rightarrow> False | Some c \<Rightarrow> c = d)"
  shows "fuelFor p1 \<le> fuelFor p" and "b \<Longrightarrow> fuelFor p1 < fuelFor p"
proof -
  have q: "fuelFor q \<le> fuelFor p" using peek_fuel [OF assms(1)] .
  have s: "fuelFor p1 < fuelFor p" if bt: b
  proof -
    obtain c where r: "r = Some c" "c = d" using assms(3) bt by (auto split: option.splits)
    from peek_Some [OF assms(1) [unfolded r(1)]]
    have "fuelFor (advance 1 q) < fuelFor q" by (simp add: advance_fuel_less)
    then show ?thesis using q assms(2) r by simp
  qed
  show "b \<Longrightarrow> fuelFor p1 < fuelFor p" using s .
  show "fuelFor p1 \<le> fuelFor p"
  proof (cases b)
    case True
    then show ?thesis using s by simp
  next
    case False
    then have "p1 = q" using assms(2,3) by (auto split: option.splits)
    then show ?thesis using q by simp
  qed
qed

lemma hasResponseCode_fuel:
  assumes "sp_hasResponseCode p = (b, p1)"
  shows "fuelFor p1 \<le> fuelFor p" and "b \<Longrightarrow> fuelFor p1 < fuelFor p"
proof -
  obtain r q where pk: "peek p = (r, q)" by (cases "peek p")
  have 1: "p1 = (case r of None \<Rightarrow> q | Some c \<Rightarrow> if c = CHR ''['' then advance 1 q else q)"
    and 2: "b = (case r of None \<Rightarrow> False | Some c \<Rightarrow> c = CHR ''['')"
    using assms pk by (auto simp: sp_hasResponseCode_def split: option.splits if_splits)
  show "fuelFor p1 \<le> fuelFor p" using bracket_fuel(1) [OF pk 1 2] .
  show "b \<Longrightarrow> fuelFor p1 < fuelFor p" using bracket_fuel(2) [OF pk 1 2] .
qed

lemma atResponseCodeEnd_fuel:
  assumes "sp_atResponseCodeEnd p = (b, p1)"
  shows "fuelFor p1 \<le> fuelFor p" and "b \<Longrightarrow> fuelFor p1 < fuelFor p"
proof -
  obtain r q where pk: "peek p = (r, q)" by (cases "peek p")
  have 1: "p1 = (case r of None \<Rightarrow> q | Some c \<Rightarrow> if c = CHR '']'' then advance 1 q else q)"
    and 2: "b = (case r of None \<Rightarrow> False | Some c \<Rightarrow> c = CHR '']'')"
    using assms pk by (auto simp: sp_atResponseCodeEnd_def split: option.splits if_splits)
  show "fuelFor p1 \<le> fuelFor p" using bracket_fuel(1) [OF pk 1 2] .
  show "b \<Longrightarrow> fuelFor p1 < fuelFor p" using bracket_fuel(2) [OF pk 1 2] .
qed

lemma literalLeft_fuel [simp]: "fuelFor (p\<lparr> literalLeft := n \<rparr>) = fuelFor p"
  by (simp add: fuelFor_def halted_def sp_availableDataSize_def)

lemma hasLiteral_fuel:
  assumes "sp_hasLiteral p = (b, p1)"
  shows "fuelFor p1 \<le> fuelFor p" and "b \<Longrightarrow> fuelFor p1 < fuelFor p \<and> 4 \<le> fuelFor p"
proof -
  obtain r q where pk: "peek p = (r, q)" by (cases "peek p")
  have q: "fuelFor q \<le> fuelFor p" using peek_fuel [OF pk] .
  have s: "fuelFor p1 < fuelFor p \<and> 4 \<le> fuelFor p" if bt: b
  proof -
    obtain c n k where r: "r = Some c" and p1: "p1 = advance (k + 1) (q\<lparr> literalLeft := n \<rparr>)"
      using assms pk bt
      by (auto simp: sp_hasLiteral_def split: option.splits if_splits header.splits)
    note ps = peek_Some [OF pk [unfolded r]]
    have "\<not> halted (q\<lparr> literalLeft := n \<rparr>)" using ps(2) by (simp add: halted_def)
    moreover have "0 < sp_availableDataSize (q\<lparr> literalLeft := n \<rparr>)"
      using ps(6) by (simp add: sp_availableDataSize_def)
    ultimately have "fuelFor p1 < fuelFor (q\<lparr> literalLeft := n \<rparr>)"
      unfolding p1 by (simp add: advance_fuel_less del: literalLeft_fuel)
    moreover have "4 \<le> fuelFor p" using ps(1) by (simp add: fuelFor_alive)
    ultimately show ?thesis using q by simp
  qed
  show "b \<Longrightarrow> fuelFor p1 < fuelFor p \<and> 4 \<le> fuelFor p" using s .
  show "fuelFor p1 \<le> fuelFor p"
  proof (cases b)
    case True
    then show ?thesis using s by simp
  next
    case False
    then have "p1 = q \<or> halted p1"
      using assms pk
      by (auto simp: sp_hasLiteral_def split: option.splits if_splits header.splits)
    then show ?thesis using q halted_fuel_le by auto
  qed
qed

lemma specStream_fields [simp]:
  "availableDataSize specStream = sp_availableDataSize"
  "parse specStream = sp_parse"
  "saveState specStream = sp_saveState"
  "restoreState specStream = sp_restoreState"
  "trimBuffer specStream = sp_trimBuffer"
  "insufficientData specStream = insufficient"
  "atCommandEnd specStream = sp_atCommandEnd"
  "hasString specStream = sp_hasString"
  "readString specStream = sp_readString"
  "hasList specStream = sp_hasList"
  "readParenthesizedList specStream = sp_readParenthesizedList"
  "hasResponseCode specStream = sp_hasResponseCode"
  "atResponseCodeEnd specStream = sp_atResponseCodeEnd"
  "hasLiteral specStream = sp_hasLiteral"
  "atLiteralEnd specStream = sp_atLiteralEnd"
  "readLiteralPart specStream = sp_readLiteralPart"
  "streamData specStream = buffer"
  by (simp_all add: specStream_def)

lemma readLiteralPart_fuel: "sp_readLiteralPart p = (part, q) \<Longrightarrow> fuelFor q \<le> fuelFor p"
  by (auto simp: sp_readLiteralPart_def Let_def fuelFor_def halted_def starve_def advance_def
      sp_availableDataSize_def unread_def split: if_splits)

lemma readLiteralPart_left:
  "sp_readLiteralPart p = (part, q) \<Longrightarrow> literalLeft q = 0 \<or> sp_availableDataSize q = 0"
  by (auto simp: sp_readLiteralPart_def Let_def starve_def advance_def
      sp_availableDataSize_def unread_def min_def split: if_splits)

lemma readLiteralPart_starved:
  "sp_readLiteralPart p = (part, q) \<Longrightarrow> sp_availableDataSize p = 0 \<Longrightarrow> literalLeft q = 0"
  by (auto simp: sp_readLiteralPart_def Let_def starve_def advance_def
      sp_availableDataSize_def unread_def split: if_splits)

lemma readLiteral_done:
  "literalLeft p = 0 \<Longrightarrow> readLiteral specStream (Suc n) p acc = Some (acc, p)"
  by (simp add: sp_atLiteralEnd_def)

lemma readLiteral_more:
  "literalLeft p \<noteq> 0 \<Longrightarrow> sp_readLiteralPart p = (part, q) \<Longrightarrow>
   readLiteral specStream (Suc n) p acc = readLiteral specStream n q (acc @ part)"
  by (simp add: sp_atLiteralEnd_def)

lemma readLiteral_returns:
  assumes "3 \<le> n"
  shows "\<exists>literal p2. readLiteral specStream n p acc = Some (literal, p2) \<and>
           fuelFor p2 \<le> fuelFor p"
proof -
  obtain k where n: "n = Suc (Suc (Suc k))"
    using assms by (metis Suc_le_D numeral_3_eq_3 Suc_le_mono)
  show ?thesis
  proof (cases "literalLeft p = 0")
    case True
    then show ?thesis unfolding n by (simp add: readLiteral_done del: readLiteral.simps)
  next
    case False
    obtain part q where 1: "sp_readLiteralPart p = (part, q)" by (cases "sp_readLiteralPart p")
    have fq: "fuelFor q \<le> fuelFor p" using readLiteralPart_fuel [OF 1] .
    have s1: "readLiteral specStream n p acc = readLiteral specStream (Suc (Suc k)) q (acc @ part)"
      unfolding n using readLiteral_more [OF False 1] .
    show ?thesis
    proof (cases "literalLeft q = 0")
      case True
      then show ?thesis using s1 fq by (simp add: readLiteral_done del: readLiteral.simps)
    next
      case f2: False
      then have av: "sp_availableDataSize q = 0" using readLiteralPart_left [OF 1] by simp
      obtain part2 q2 where 2: "sp_readLiteralPart q = (part2, q2)"
        by (cases "sp_readLiteralPart q")
      have l2: "literalLeft q2 = 0" using readLiteralPart_starved [OF 2 av] .
      have fq2: "fuelFor q2 \<le> fuelFor q" using readLiteralPart_fuel [OF 2] .
      have "readLiteral specStream (Suc (Suc k)) q (acc @ part) =
          readLiteral specStream (Suc k) q2 (acc @ part @ part2)"
        using readLiteral_more [OF f2 2, of "Suc k" "acc @ part"] by (simp del: readLiteral.simps)
      then show ?thesis using s1 l2 fq fq2 by (simp add: readLiteral_done del: readLiteral.simps)
    qed
  qed
qed

lemma readParts_returns:
  "fuelFor p \<le> n \<Longrightarrow> \<exists>e p2 m2. readParts specStream n p pl m = Some (e, p2, m2)"
proof (induction n arbitrary: p pl m)
  case 0
  then show ?case using fuelFor_ge [of p] by simp
next
  case (Suc n)
  obtain b1 p1 where c1: "sp_atCommandEnd p = (b1, p1)" by (cases "sp_atCommandEnd p")
  show ?case
  proof (cases b1)
    case True
    then show ?thesis using c1 by simp
  next
    case f1: False
    have l1: "fuelFor p1 \<le> Suc n" using atCommandEnd_fuel [OF c1 f1] Suc.prems by simp
    obtain b2 p2 where c2: "sp_hasString p1 = (b2, p2)" by (cases "sp_hasString p1")
    have l2: "fuelFor p2 \<le> Suc n" using hasString_fuel(1) [OF c2] l1 by simp
    show ?thesis
    proof (cases b2)
      case True
      obtain string p3 where c3: "sp_readString p2 = (string, p3)" by (cases "sp_readString p2")
      have "fuelFor p3 < fuelFor p2"
        using readString_fuel [OF _ _ _ c3] hasString_fuel(2) [OF c2 True] by simp
      then have "fuelFor p3 \<le> n" using l2 by simp
      from Suc.IH [OF this] show ?thesis using c1 f1 c2 True c3 by simp
    next
      case f2: False
      obtain b3 p3 where c3: "sp_hasList p2 = (b3, p3)" by (cases "sp_hasList p2")
      have l3: "fuelFor p3 \<le> Suc n" using hasList_fuel(1) [OF c3] l2 by simp
      show ?thesis
      proof (cases b3)
        case True
        obtain list p4 where c4: "sp_readParenthesizedList p3 = (list, p4)"
          by (cases "sp_readParenthesizedList p3")
        have "fuelFor p4 < fuelFor p3"
          using readParenthesizedList_fuel [OF _ _ c4] hasList_fuel(2) [OF c3 True] by simp
        then have "fuelFor p4 \<le> n" using l3 by simp
        from Suc.IH [OF this] show ?thesis using c1 f1 c2 f2 c3 True c4 by simp
      next
        case f3: False
        obtain b4 p4 where c4: "sp_hasResponseCode p3 = (b4, p4)"
          by (cases "sp_hasResponseCode p3")
        have l4: "fuelFor p4 \<le> Suc n" using hasResponseCode_fuel(1) [OF c4] l3 by simp
        show ?thesis
        proof (cases b4)
          case True
          have "fuelFor p4 \<le> n" using hasResponseCode_fuel(2) [OF c4 True] l3 by simp
          from Suc.IH [OF this] show ?thesis using c1 f1 c2 f2 c3 f3 c4 True by simp
        next
          case f4: False
          obtain b5 p5 where c5: "sp_atResponseCodeEnd p4 = (b5, p5)"
            by (cases "sp_atResponseCodeEnd p4")
          have l5: "fuelFor p5 \<le> Suc n" using atResponseCodeEnd_fuel(1) [OF c5] l4 by simp
          show ?thesis
          proof (cases b5)
            case True
            have "fuelFor p5 \<le> n" using atResponseCodeEnd_fuel(2) [OF c5 True] l4 by simp
            from Suc.IH [OF this] show ?thesis using c1 f1 c2 f2 c3 f3 c4 f4 c5 True by simp
          next
            case f5: False
            obtain b6 p6 where c6: "sp_hasLiteral p5 = (b6, p6)" by (cases "sp_hasLiteral p5")
            show ?thesis
            proof (cases b6)
              case True
              have h: "fuelFor p6 < fuelFor p5" "4 \<le> fuelFor p5"
                using hasLiteral_fuel(2) [OF c6 True] by simp_all
              have n3: "3 \<le> n" using h(2) l5 by simp
              from readLiteral_returns [OF n3, of p6 "[]"] obtain literal p7 where
                c7: "readLiteral specStream n p6 [] = Some (literal, p7)" and
                l7: "fuelFor p7 \<le> fuelFor p6" by blast
              have "fuelFor p7 \<le> n" using l7 h(1) l5 by simp
              from Suc.IH [OF this] show ?thesis
                using c1 f1 c2 f2 c3 f3 c4 f4 c5 f5 c6 True c7 by simp
            next
              case f6: False
              then show ?thesis using c1 f1 c2 f2 c3 f3 c4 f4 c5 f5 c6 by simp
            qed
          qed
        qed
      qed
    qed
  qed
qed

text \<open>On the parser of the spec every drain of \<open>SessionPrivate::readMessage\<close> returns:
  fuel for the length of the buffer and four more turns is enough.\<close>

lemma readMessage_returns:
  assumes "length (buffer p) + 4 \<le> fuel"
  shows "\<exists>p' s'. readMessage specStream fuel (p, s) = Some (p', s')"
proof -
  have "fuelFor (sp_saveState p) \<le> length (buffer p) + 4"
    by (simp add: fuelFor_def sp_saveState_def sp_availableDataSize_def halted_def)
  then have "fuelFor (sp_saveState p) \<le> fuel" using assms by simp
  from readParts_returns [OF this, of ToContent emptyMessage] obtain e p2 m2 where
    "readParts specStream fuel (sp_saveState p) ToContent emptyMessage = Some (e, p2, m2)"
    by blast
  then have rp:
    "readParts specStream fuel (saveState specStream p) ToContent emptyMessage =
       Some (e, p2, m2)"
    by simp
  have ps: "parse specStream p = (hasCRLF (unread p), p)"
    by (simp add: sp_parse_def)
  show ?thesis
  proof (cases "availableDataSize specStream p = 0")
    case True
    then show ?thesis by (simp add: readMessage_def)
  next
    case False
    show ?thesis
    proof (cases "hasCRLF (unread p)")
      case True
      then have "parse specStream p = (True, p)" using ps by simp
      then show ?thesis
        using False rp by (simp add: readMessage_def Let_def del: specStream_fields)
    next
      case f: False
      then have "parse specStream p = (False, p)" using ps by simp
      then show ?thesis
        using False by (simp add: readMessage_def del: specStream_fields)
    qed
  qed
qed


section \<open>The reader of the session thread at the same inputs\<close>

text \<open>
  The older reader on the parser of the spec, taken never to throw. After the completion
  \<open>A2 OK [READ-WRITE] done\<close> one byte is left and no other drain is scheduled; the line
  that no predicate matches closes the socket; the literal NIL is a string part.
\<close>

lemma SessionThread_readMessage_examples:
  "SessionThread_readMessage specStream (\<lambda>p. False) 20
     (drainInput, newSessionThread UnknownSslVersion) =
     Some (drainInput\<lparr> cursor := 25 \<rparr>,
       call (EmitResponseReceived doneMessage) (newSessionThread UnknownSslVersion))"
  "availableDataSize specStream (drainInput\<lparr> cursor := 25 \<rparr>) = 1"
  "SessionThread_readMessage specStream (\<lambda>p. False) 20
     (abortInput, newSessionThread UnknownSslVersion) =
     Some (abortInput\<lparr> cursor := 2 \<rparr>,
       call Close
         (call (QWarning ''Inconsistent state, probably due to some packet loss'')
            (newSessionThread UnknownSslVersion)))"
  "SessionThread_readMessage specStream (\<lambda>p. False) 20
     (nilLiteralInput, newSessionThread UnknownSslVersion) =
     Some (nilLiteralInput\<lparr> cursor := 12 \<rparr>,
       call (EmitResponseReceived \<lparr> content = [String ''*'', String ''NIL''], responseCode = [] \<rparr>)
         (newSessionThread UnknownSslVersion))"
  by code_simp+

end
